theory Spec2Isabelle
  imports Complex_Main
begin

section \<open>The relational store\<close>

text \<open>
  The services talk to a Prisma client over Postgres. A table is modelled as the list of
  its rows; the store is a record of tables and every service function takes the store
  and returns the store it leaves behind, together with its result. A function that
  throws returns \<open>Inl\<close> of the error next to the store as it stood at the throw: no
  service opens a transaction, so writes made before a throw stay.

  String ids (cuid) are strings, a JS \<open>Date\<close> is its integer number of milliseconds,
  the integer columns (\<open>progressPercent\<close>, \<open>score\<close>, \<open>maxScore\<close>) are unbounded
  integers (the routes admit integers only), and the opaque JSON payload of an answer is
  its serialised text. Columns that none of the functions below reads or writes (titles,
  descriptions, ordering keys, row timestamps other than the \<open>createdAt\<close> of an OTP
  code) are left out of the rows.
\<close>

type_synonym ident = string
type_synonym date = int
type_synonym json = string

datatype OtpPurpose = REGISTER | LOGIN | PASSWORD_RESET

record User =
  user_id :: ident
  user_email :: string
  user_phone :: "string option"
  user_passwordHash :: string
  user_isActive :: bool

record OtpCode =
  otp_id :: ident
  otp_createdAt :: date
  otp_userId :: ident
  otp_code :: string
  otp_purpose :: OtpPurpose
  otp_expiresAt :: date
  otp_usedAt :: "date option"
  otp_sentTo :: string

record Course =
  course_id :: ident
  course_isActive :: bool

record Lesson =
  lesson_id :: ident
  lesson_courseId :: ident
  lesson_isActive :: bool

record Assignment =
  assignment_id :: ident
  assignment_lessonId :: ident
  assignment_maxScore :: int
  assignment_isActive :: bool

record UserLessonProgress =
  ulp_userId :: ident
  ulp_lessonId :: ident
  ulp_progressPercent :: int
  ulp_completedAt :: "date option"

record UserCourseProgress =
  ucp_userId :: ident
  ucp_courseId :: ident
  ucp_progressPercent :: int
  ucp_completedAt :: "date option"

record UserAssignment =
  ua_userId :: ident
  ua_assignmentId :: ident
  ua_score :: int
  ua_answers :: "json option"
  ua_completedAt :: "date option"

record store =
  users :: "User list"
  otpCodes :: "OtpCode list"
  courses :: "Course list"
  lessons :: "Lesson list"
  assignments :: "Assignment list"
  userLessonProgress :: "UserLessonProgress list"
  userCourseProgress :: "UserCourseProgress list"
  userAssignments :: "UserAssignment list"

text \<open>
  The messages of the \<open>Error\<close>s the services throw, one constructor per message:
  \<open>ProgressOutOfRange\<close> is 'Progress percent must be between 0 and 100',
  \<open>ScoreOutOfRange m\<close> is 'Score must be between 0 and m', \<open>UserExists\<close> is
  'User with this email already exists', \<open>SmtpNotConfigured\<close> is
  'SMTP is not configured in environment variables', \<open>SendMailFailed\<close> stands for
  whatever the mail transport rejects with, and \<open>PrismaValidationError\<close> for the
  \<open>PrismaClientValidationError\<close> the client throws on an input its model refuses.
\<close>

datatype error =
    ProgressOutOfRange
  | LessonNotFound
  | CourseNotFound
  | AssignmentNotFound
  | ScoreOutOfRange int
  | UserExists
  | SmtpNotConfigured
  | SendMailFailed
  | PrismaValidationError

subsection \<open>The Prisma operations used\<close>

definition findUnique :: "('r \<Rightarrow> bool) \<Rightarrow> 'r list \<Rightarrow> 'r option" where
  "findUnique P rows = find P rows"

definition findMany :: "('r \<Rightarrow> bool) \<Rightarrow> 'r list \<Rightarrow> 'r list" where
  "findMany P rows = filter P rows"

definition count :: "('r \<Rightarrow> bool) \<Rightarrow> 'r list \<Rightarrow> nat" where
  "count P rows = length (filter P rows)"

definition create :: "'r \<Rightarrow> 'r list \<Rightarrow> 'r list" where
  "create row rows = rows @ [row]"

text \<open>
  \<open>upsert\<close>: the row matching the unique key is updated, and a row is created when
  none matches. The table and the written row are returned.
\<close>

definition upsert :: "('r \<Rightarrow> bool) \<Rightarrow> 'r \<Rightarrow> ('r \<Rightarrow> 'r) \<Rightarrow> 'r list \<Rightarrow> 'r list \<times> 'r" where
  "upsert P new upd rows =
     (case find P rows of
        None \<Rightarrow> (rows @ [new], new)
      | Some r \<Rightarrow> (map (\<lambda>x. if P x then upd x else x) rows, upd r))"

text \<open>
  \<open>Math.round\<close> rounds to the nearest integer, a half towards plus infinity. The
  quotients it is given here are quotients of two integers; the model takes them exactly,
  which is what the division of doubles yields for them unless a table has more than
  \<open>2^45\<close> rows.
\<close>

definition Math_round :: "rat \<Rightarrow> int" where
  "Math_round x = \<lfloor>x + 1 / 2\<rfloor>"

section \<open>Course service: lesson and course progress\<close>

text \<open>
  \<open>updateCourseProgress\<close>: the course's active lessons are loaded; with none the
  function returns without writing. Otherwise the user's progress rows on those lessons
  are summed (\<open>reduce\<close> from 0), divided by the number of active lessons and rounded,
  and the course row is upserted. In the update branch \<open>completedAt\<close> is
  \<open>undefined\<close> unless the average is 100, which leaves the stored value.
\<close>

definition updateCourseProgress :: "store \<Rightarrow> date \<Rightarrow> ident \<Rightarrow> ident \<Rightarrow> store \<times> (error + unit)" where
  "updateCourseProgress db now userId courseId =
     (case findUnique (\<lambda>c. course_id c = courseId) (courses db) of
        None \<Rightarrow> (db, Inl CourseNotFound)
      | Some course \<Rightarrow>
          let course_lessons =
                findMany (\<lambda>l. lesson_courseId l = courseId \<and> lesson_isActive l) (lessons db)
          in if length course_lessons = 0 then (db, Inr ())
             else
               let lessonsProgress =
                     findMany (\<lambda>lp. ulp_userId lp = userId \<and>
                                      ulp_lessonId lp \<in> set (map lesson_id course_lessons))
                       (userLessonProgress db);
                   totalProgress = foldl (\<lambda>sum lp. sum + ulp_progressPercent lp) 0 lessonsProgress;
                   averageProgress =
                     Math_round (of_int totalProgress / of_int (int (length course_lessons)));
                   isCompleted = (averageProgress = 100);
                   (rows, written) =
                     upsert (\<lambda>r. ucp_userId r = userId \<and> ucp_courseId r = courseId)
                       \<lparr>ucp_userId = userId, ucp_courseId = courseId,
                        ucp_progressPercent = averageProgress,
                        ucp_completedAt = (if isCompleted then Some now else None)\<rparr>
                       (\<lambda>r. r\<lparr>ucp_progressPercent := averageProgress,
                               ucp_completedAt :=
                                 (if isCompleted then Some now else ucp_completedAt r)\<rparr>)
                       (userCourseProgress db)
               in (db\<lparr>userCourseProgress := rows\<rparr>, Inr ()))"

text \<open>
  \<open>updateLessonProgress\<close>: the range check comes first, then the lookup of the lesson,
  then the upsert of the lesson row, then the course's aggregate. An error of
  \<open>updateCourseProgress\<close> propagates after the lesson row is written.
\<close>

definition updateLessonProgress ::
  "store \<Rightarrow> date \<Rightarrow> ident \<Rightarrow> ident \<Rightarrow> int \<Rightarrow> store \<times> (error + UserLessonProgress)" where
  "updateLessonProgress db now userId lessonId progressPercent =
     (if progressPercent < 0 \<or> progressPercent > 100 then (db, Inl ProgressOutOfRange)
      else
        case findUnique (\<lambda>l. lesson_id l = lessonId) (lessons db) of
          None \<Rightarrow> (db, Inl LessonNotFound)
        | Some lesson \<Rightarrow>
            let isCompleted = (progressPercent = 100);
                (rows, lessonProgress) =
                  upsert (\<lambda>r. ulp_userId r = userId \<and> ulp_lessonId r = lessonId)
                    \<lparr>ulp_userId = userId, ulp_lessonId = lessonId,
                     ulp_progressPercent = progressPercent,
                     ulp_completedAt = (if isCompleted then Some now else None)\<rparr>
                    (\<lambda>r. r\<lparr>ulp_progressPercent := progressPercent,
                            ulp_completedAt :=
                              (if isCompleted then Some now else ulp_completedAt r)\<rparr>)
                    (userLessonProgress db);
                db1 = db\<lparr>userLessonProgress := rows\<rparr>
            in (case updateCourseProgress db1 now userId (lesson_courseId lesson) of
                  (db2, Inl e) \<Rightarrow> (db2, Inl e)
                | (db2, Inr u) \<Rightarrow> (db2, Inr lessonProgress)))"


section \<open>Configuration and what a call reads from outside\<close>

text \<open>
  \<open>env\<close> holds the parsed environment variables the services read. \<open>ext\<close> holds
  what one call observes of its surroundings: the clock (every \<open>new Date()\<close> of the
  call reads \<open>clock\<close>), the ids the store gives to the rows the call creates, the
  digit index \<open>Math.floor(Math.random() * 10)\<close>, a number from 0 to 9, of each
  iteration of the code generator, the bcrypt hash, and whether the mail transport
  accepts the message.
\<close>

record env =
  OTP_EXP_MINUTES :: int
  SMTP_HOST :: "string option"
  SMTP_PORT :: "int option"
  SMTP_USER :: "string option"
  SMTP_PASS :: "string option"

record ext =
  clock :: date
  cuid_user :: ident
  cuid_otp :: ident
  draws :: "nat \<Rightarrow> nat"
  bcrypt_hash :: "string \<Rightarrow> string"
  sendMail_ok :: bool

text \<open>JS truthiness of an optional string and of an optional number.\<close>

definition truthy_string :: "string option \<Rightarrow> bool" where
  "truthy_string s = (case s of None \<Rightarrow> False | Some v \<Rightarrow> v \<noteq> [])"

definition truthy_number :: "int option \<Rightarrow> bool" where
  "truthy_number n = (case n of None \<Rightarrow> False | Some v \<Rightarrow> v \<noteq> 0)"

section \<open>OTP service\<close>

definition digits :: string where
  "digits = ''0123456789''"

text \<open>The \<open>for\<close> loop of \<open>generateOtpCode\<close>, from counter \<open>i\<close> and the code so far.\<close>

function generateOtpCode_loop :: "(nat \<Rightarrow> nat) \<Rightarrow> nat \<Rightarrow> nat \<Rightarrow> string \<Rightarrow> string" where
  "generateOtpCode_loop draw len i code =
     (if i < len then generateOtpCode_loop draw len (i + 1) (code @ [digits ! draw i]) else code)"
  by pat_completeness auto
termination
  by (relation "measure (\<lambda>(draw, len, i, code). len - i)") auto

definition generateOtpCode :: "(nat \<Rightarrow> nat) \<Rightarrow> nat \<Rightarrow> string" where
  "generateOtpCode draw len = generateOtpCode_loop draw len 0 []"

definition addMinutes :: "date \<Rightarrow> int \<Rightarrow> date" where
  "addMinutes d m = d + m * 60000"

definition isBefore :: "date \<Rightarrow> date \<Rightarrow> bool" where
  "isBefore d dateToCompare = (d < dateToCompare)"

definition createOtpForUser ::
  "store \<Rightarrow> env \<Rightarrow> ext \<Rightarrow> ident \<Rightarrow> OtpPurpose \<Rightarrow> string \<Rightarrow> store \<times> OtpCode" where
  "createOtpForUser db ev x userId purpose sentTo =
     (let code = generateOtpCode (draws x) 6;
          expiresAt = addMinutes (clock x) (OTP_EXP_MINUTES ev);
          otp = \<lparr>otp_id = cuid_otp x, otp_createdAt = clock x, otp_userId = userId,
                 otp_code = code, otp_purpose = purpose, otp_expiresAt = expiresAt,
                 otp_usedAt = None, otp_sentTo = sentTo\<rparr>
      in (db\<lparr>otpCodes := create otp (otpCodes db)\<rparr>, otp))"

text \<open>
  \<open>findFirst\<close> with \<open>orderBy: { createdAt: 'desc' }\<close>: a row of the greatest
  \<open>createdAt\<close> among the matching ones. Postgres leaves the order of rows of equal
  \<open>createdAt\<close> open; the model takes the first of them in table order.
\<close>

fun findFirst_createdAt_desc :: "OtpCode list \<Rightarrow> OtpCode option" where
  "findFirst_createdAt_desc [] = None"
| "findFirst_createdAt_desc (x # xs) =
     (case findFirst_createdAt_desc xs of
        None \<Rightarrow> Some x
      | Some y \<Rightarrow> if otp_createdAt x < otp_createdAt y then Some y else Some x)"

text \<open>
  \<open>verifyOtp\<close>: the latest unused row of the user, purpose and code; \<open>false\<close> when there
  is none or when its \<open>expiresAt\<close> is before the current time; otherwise the row of that
  id is marked used and the result is \<open>true\<close>.
\<close>

definition verifyOtp :: "store \<Rightarrow> date \<Rightarrow> ident \<Rightarrow> OtpPurpose \<Rightarrow> string \<Rightarrow> store \<times> bool" where
  "verifyOtp db now userId purpose code =
     (case findFirst_createdAt_desc
             (findMany (\<lambda>otp. otp_userId otp = userId \<and> otp_purpose otp = purpose \<and>
                               otp_code otp = code \<and> otp_usedAt otp = None) (otpCodes db)) of
        None \<Rightarrow> (db, False)
      | Some otp \<Rightarrow>
          if isBefore (otp_expiresAt otp) now then (db, False)
          else (db\<lparr>otpCodes :=
                      map (\<lambda>r. if otp_id r = otp_id otp then r\<lparr>otp_usedAt := Some now\<rparr> else r)
                        (otpCodes db)\<rparr>, True))"

section \<open>Email service\<close>

text \<open>
  \<open>getTransporter\<close> throws unless the four SMTP settings are truthy; \<open>sendOtpEmail\<close>
  then awaits \<open>sendMail\<close>, whose rejection propagates.
\<close>

definition getTransporter :: "env \<Rightarrow> error + unit" where
  "getTransporter ev =
     (if \<not> truthy_string (SMTP_HOST ev) \<or> \<not> truthy_number (SMTP_PORT ev) \<or>
         \<not> truthy_string (SMTP_USER ev) \<or> \<not> truthy_string (SMTP_PASS ev)
      then Inl SmtpNotConfigured else Inr ())"

definition sendOtpEmail :: "env \<Rightarrow> ext \<Rightarrow> error + unit" where
  "sendOtpEmail ev x =
     (case getTransporter ev of
        Inl e \<Rightarrow> Inl e
      | Inr tr \<Rightarrow> if sendMail_ok x then Inr () else Inl SendMailFailed)"

section \<open>Auth service\<close>

definition registerRequestOtp :: "store \<Rightarrow> env \<Rightarrow> ext \<Rightarrow> string \<Rightarrow> string \<Rightarrow> store \<times> (error + unit)" where
  "registerRequestOtp db ev x email password =
     (case findUnique (\<lambda>u. user_email u = email) (users db) of
        Some existing \<Rightarrow> (db, Inl UserExists)
      | None \<Rightarrow>
          let passwordHash = bcrypt_hash x password;
              user = \<lparr>user_id = cuid_user x, user_email = email, user_phone = None,
                      user_passwordHash = passwordHash, user_isActive = False\<rparr>;
              db1 = db\<lparr>users := create user (users db)\<rparr>;
              (db2, otp) = createOtpForUser db1 ev x (user_id user) REGISTER email
          in (case sendOtpEmail ev x of
                Inl e \<Rightarrow> (db2, Inl e)
              | Inr u \<Rightarrow> (db2, Inr ())))"

definition requestPasswordReset :: "store \<Rightarrow> env \<Rightarrow> ext \<Rightarrow> string \<Rightarrow> store \<times> (error + unit)" where
  "requestPasswordReset db ev x email =
     (case findUnique (\<lambda>u. user_email u = email) (users db) of
        None \<Rightarrow> (db, Inr ())
      | Some user \<Rightarrow>
          if \<not> user_isActive user then (db, Inr ())
          else
            let (db1, otp) = createOtpForUser db ev x (user_id user) PASSWORD_RESET email
            in (case sendOtpEmail ev x of
                  Inl e \<Rightarrow> (db1, Inl e)
                | Inr u \<Rightarrow> (db1, Inr ())))"

section \<open>Profile service: statistics and achievements\<close>

text \<open>
  The numbers \<open>getUserStats\<close> returns. \<open>scorePercentage\<close>, a rounded floating-point
  product that nothing else reads, is left out.
\<close>

record stats =
  totalCourses :: nat
  startedCourses :: nat
  completedCourses :: nat
  averageProgress :: int
  completedLessons :: nat
  totalLessons :: nat
  completedAssignments :: nat
  totalAssignments :: nat
  totalScore :: int
  maxScore :: int

text \<open>The relation filters \<open>course: { isActive: true }\<close> and \<open>lesson: { ... }\<close>.\<close>

definition course_active :: "store \<Rightarrow> ident \<Rightarrow> bool" where
  "course_active db courseId =
     (case findUnique (\<lambda>c. course_id c = courseId) (courses db) of
        None \<Rightarrow> False | Some c \<Rightarrow> course_isActive c)"

definition lesson_active_in_active_course :: "store \<Rightarrow> ident \<Rightarrow> bool" where
  "lesson_active_in_active_course db lessonId =
     (case findUnique (\<lambda>l. lesson_id l = lessonId) (lessons db) of
        None \<Rightarrow> False
      | Some l \<Rightarrow> course_active db (lesson_courseId l) \<and> lesson_isActive l)"

definition getUserStats :: "store \<Rightarrow> ident \<Rightarrow> stats" where
  "getUserStats db userId =
     (let userCourses = findMany (\<lambda>cp. ucp_userId cp = userId) (userCourseProgress db);
          userAnswers = findMany (\<lambda>ua. ua_userId ua = userId) (userAssignments db)
      in \<lparr>totalCourses = count course_isActive (courses db),
          startedCourses = length userCourses,
          completedCourses = length (filter (\<lambda>cp. ucp_progressPercent cp = 100) userCourses),
          averageProgress =
            (if length userCourses > 0
             then Math_round
                    (of_int (foldl (\<lambda>sum cp. sum + ucp_progressPercent cp) 0 userCourses) /
                     of_int (int (length userCourses)))
             else 0),
          completedLessons =
            count (\<lambda>lp. ulp_userId lp = userId \<and> ulp_progressPercent lp = 100)
              (userLessonProgress db),
          totalLessons =
            count (\<lambda>l. course_active db (lesson_courseId l) \<and> lesson_isActive l) (lessons db),
          completedAssignments =
            count (\<lambda>ua. ua_userId ua = userId \<and> ua_completedAt ua \<noteq> None) (userAssignments db),
          totalAssignments =
            count (\<lambda>a. lesson_active_in_active_course db (assignment_lessonId a) \<and>
                        assignment_isActive a) (assignments db),
          totalScore = foldl (\<lambda>sum ua. sum + ua_score ua) 0 userAnswers,
          maxScore =
            foldl (\<lambda>sum ua.
                     sum + (case findUnique (\<lambda>a. assignment_id a = ua_assignmentId ua)
                                   (assignments db) of
                              None \<Rightarrow> 0 | Some a \<Rightarrow> assignment_maxScore a))
              0 userAnswers\<rparr>)"

text \<open>
  An achievement as returned: its id and the \<open>unlocked\<close> flag (title and description
  are fixed display texts). \<open>getUserAchievements\<close> pushes them in this order.
\<close>

record achievement =
  ach_id :: string
  unlocked :: bool

definition getUserAchievements :: "store \<Rightarrow> ident \<Rightarrow> achievement list" where
  "getUserAchievements db userId =
     (let st = getUserStats db userId
      in (if startedCourses st \<ge> 1 then [\<lparr>ach_id = ''first_course'', unlocked = True\<rparr>] else []) @
         (if completedCourses st \<ge> 1 then [\<lparr>ach_id = ''first_completed'', unlocked = True\<rparr>] else []) @
         (if completedCourses st \<ge> 5 then [\<lparr>ach_id = ''five_courses'', unlocked = True\<rparr>] else []) @
         (if completedCourses st \<ge> 10 then [\<lparr>ach_id = ''ten_courses'', unlocked = True\<rparr>] else []) @
         (if completedAssignments st > 0 \<and> completedAssignments st = totalAssignments st
          then [\<lparr>ach_id = ''all_assignments'', unlocked = True\<rparr>] else []) @
         (if averageProgress st = 100 \<and> startedCourses st > 0
          then [\<lparr>ach_id = ''perfect_progress'', unlocked = True\<rparr>] else []))"

section \<open>Notions the properties are stated with\<close>

text \<open>
  The active lessons of a course, the row a user has for a lesson, a course or an
  assignment, the percent a user has on a lesson (0 when the user has no row for it), and
  the rounded mean over all active lessons of a course.
\<close>

definition activeLessons :: "store \<Rightarrow> ident \<Rightarrow> Lesson list" where
  "activeLessons db courseId =
     findMany (\<lambda>l. lesson_courseId l = courseId \<and> lesson_isActive l) (lessons db)"

definition lessonProgressRow :: "store \<Rightarrow> ident \<Rightarrow> ident \<Rightarrow> UserLessonProgress option" where
  "lessonProgressRow db userId lessonId =
     findUnique (\<lambda>r. ulp_userId r = userId \<and> ulp_lessonId r = lessonId) (userLessonProgress db)"

definition courseProgressRow :: "store \<Rightarrow> ident \<Rightarrow> ident \<Rightarrow> UserCourseProgress option" where
  "courseProgressRow db userId courseId =
     findUnique (\<lambda>r. ucp_userId r = userId \<and> ucp_courseId r = courseId) (userCourseProgress db)"


definition lessonPercent :: "store \<Rightarrow> ident \<Rightarrow> ident \<Rightarrow> int" where
  "lessonPercent db userId lessonId =
     (case lessonProgressRow db userId lessonId of
        None \<Rightarrow> 0 | Some r \<Rightarrow> ulp_progressPercent r)"

definition courseAverage :: "store \<Rightarrow> ident \<Rightarrow> ident \<Rightarrow> int" where
  "courseAverage db userId courseId =
     Math_round
       (of_int (sum_list (map (\<lambda>l. lessonPercent db userId (lesson_id l)) (activeLessons db courseId))) /
        of_int (int (length (activeLessons db courseId))))"

text \<open>
  The unique constraints the progress engine relies on: lesson ids are primary keys, and
  a user has at most one progress row per lesson (the compound key of the upsert).
\<close>

definition unique_keys :: "store \<Rightarrow> bool" where
  "unique_keys db =
     (distinct (map lesson_id (lessons db)) \<and>
      distinct (map (\<lambda>r. (ulp_userId r, ulp_lessonId r)) (userLessonProgress db)))"

text \<open>
  A run of calls \<open>updateLessonProgress(userId, lessonId, 100)\<close>, one per listed lesson,
  each at its own time; the store after the last one.
\<close>

definition completeLessons :: "store \<Rightarrow> ident \<Rightarrow> (date \<times> ident) list \<Rightarrow> store" where
  "completeLessons db userId ks =
     foldl (\<lambda>d (now, lessonId). fst (updateLessonProgress d now userId lessonId 100)) db ks"

text \<open>
  An OTP row is of a user, purpose and code; the unused rows of a user, purpose and code
  are the candidates of \<open>verifyOtp\<close>; ids of OTP rows are primary keys.
\<close>

definition otp_matches :: "ident \<Rightarrow> OtpPurpose \<Rightarrow> string \<Rightarrow> OtpCode \<Rightarrow> bool" where
  "otp_matches userId purpose code otp =
     (otp_userId otp = userId \<and> otp_purpose otp = purpose \<and> otp_code otp = code)"

definition unused_matching :: "store \<Rightarrow> ident \<Rightarrow> OtpPurpose \<Rightarrow> string \<Rightarrow> OtpCode list" where
  "unused_matching db userId purpose code =
     findMany (\<lambda>otp. otp_matches userId purpose code otp \<and> otp_usedAt otp = None) (otpCodes db)"

definition unused_codes :: "store \<Rightarrow> OtpCode list" where
  "unused_codes db = findMany (\<lambda>otp. otp_usedAt otp = None) (otpCodes db)"

definition unique_otp_ids :: "store \<Rightarrow> bool" where
  "unique_otp_ids db = distinct (map otp_id (otpCodes db))"

text \<open>
  A code created later never expires earlier; it holds in a store whose codes were all
  issued with one expiry window, \<open>expiresAt\<close> being the time of creation plus the
  window.
\<close>

definition later_codes_expire_later :: "store \<Rightarrow> bool" where
  "later_codes_expire_later db =
     list_all (\<lambda>a. list_all (\<lambda>b. otp_createdAt a \<le> otp_createdAt b \<longrightarrow>
                                    otp_expiresAt a \<le> otp_expiresAt b) (otpCodes db))
       (otpCodes db)"

definition issued_with_window :: "env \<Rightarrow> store \<Rightarrow> bool" where
  "issued_with_window ev db =
     list_all (\<lambda>r. otp_expiresAt r = addMinutes (otp_createdAt r) (OTP_EXP_MINUTES ev))
       (otpCodes db)"




text \<open>
  A small store for concrete instances: one course with two active lessons and an
  inactive one, an assignment of at most 10 points on the second lesson, an active and
  an inactive user.
\<close>

definition demo_store :: store where
  "demo_store =
     \<lparr>users =
        [\<lparr>user_id = ''u1'', user_email = ''a@x.com'', user_phone = None,
          user_passwordHash = ''h1'', user_isActive = True\<rparr>,
         \<lparr>user_id = ''u2'', user_email = ''b@x.com'', user_phone = None,
          user_passwordHash = ''h2'', user_isActive = False\<rparr>],
      otpCodes = [],
      courses = [\<lparr>course_id = ''c1'', course_isActive = True\<rparr>],
      lessons =
        [\<lparr>lesson_id = ''l1'', lesson_courseId = ''c1'', lesson_isActive = True\<rparr>,
         \<lparr>lesson_id = ''l2'', lesson_courseId = ''c1'', lesson_isActive = True\<rparr>,
         \<lparr>lesson_id = ''l3'', lesson_courseId = ''c1'', lesson_isActive = False\<rparr>],
      assignments =
        [\<lparr>assignment_id = ''a1'', assignment_lessonId = ''l2'', assignment_maxScore = 10,
          assignment_isActive = True\<rparr>],
      userLessonProgress = [],
      userCourseProgress = [],
      userAssignments = []\<rparr>"

text \<open>
  A configuration with a ten-minute expiry and SMTP set up, and a call at time 0 whose
  random digits are 1 to 6. \<open>demo_one_code\<close> is the small store after one password-reset
  code is issued to the active user; \<open>demo_two_codes\<close> is that store after a second code
  is issued a second later, the generator drawing the same digits again.
\<close>

definition demo_env :: env where
  "demo_env = \<lparr>OTP_EXP_MINUTES = 10, SMTP_HOST = Some ''smtp.x.com'', SMTP_PORT = Some 465,
                SMTP_USER = Some ''mailer'', SMTP_PASS = Some ''secret''\<rparr>"

definition demo_ext :: ext where
  "demo_ext = \<lparr>clock = 0, cuid_user = ''u3'', cuid_otp = ''o1'', draws = Suc,
                bcrypt_hash = (\<lambda>pw. ''bcrypt:'' @ pw), sendMail_ok = True\<rparr>"

definition demo_one_code :: store where
  "demo_one_code = fst (createOtpForUser demo_store demo_env demo_ext ''u1'' PASSWORD_RESET ''a@x.com'')"

definition demo_two_codes :: store where
  "demo_two_codes =
     fst (createOtpForUser demo_one_code demo_env (demo_ext\<lparr>clock := 1000, cuid_otp := ''o2''\<rparr>)
            ''u1'' PASSWORD_RESET ''a@x.com'')"


text \<open>The small store after the active user has completed both active lessons.\<close>

definition demo_done :: store where
  "demo_done =
     fst (updateLessonProgress (fst (updateLessonProgress demo_store 7 ''u1'' ''l1'' 100))
            8 ''u1'' ''l2'' 100)"

section \<open>Validation of lesson progress\<close>

text \<open>
  C6. A percent below 0 or above 100 makes \<open>updateLessonProgress\<close> throw the range
  error before anything is read or written: the store it leaves is the store it was
  given, so every lesson-progress and course-progress row is as before.
\<close>

theorem updateLessonProgress_out_of_range:
  assumes "p < 0 \<or> 100 < p"
  shows "updateLessonProgress db now userId lessonId p = (db, Inl ProgressOutOfRange)"
  using assms by (auto simp: updateLessonProgress_def)

theorem updateLessonProgress_out_of_range_witness:
  "updateLessonProgress demo_store 7 ''u1'' ''l1'' 101 = (demo_store, Inl ProgressOutOfRange) \<and>
   updateLessonProgress demo_store 7 ''u1'' ''l1'' (- 1) = (demo_store, Inl ProgressOutOfRange)"
  using updateLessonProgress_out_of_range [of 101 demo_store 7 "''u1''" "''l1''"]
        updateLessonProgress_out_of_range [of "- 1" demo_store 7 "''u1''" "''l1''"]
  by simp

section \<open>Course progress is the rounded mean over all active lessons\<close>

subsection \<open>Rounding a quotient of integers\<close>

lemma Math_round_quotient:
  assumes "0 < b"
  shows "Math_round (of_int a / of_int b) = (2 * a + b) div (2 * b)"
proof -
  have "(of_int a / of_int b + 1 / 2 :: rat) = of_int (2 * a + b) / of_int (2 * b)"
    using assms by (simp add: field_simps)
  then show ?thesis
    unfolding Math_round_def by (simp only: floor_divide_of_int_eq)
qed

lemma Math_round_of_int: "Math_round (of_int n) = n"
  using Math_round_quotient [of 1 n] by simp

lemma Math_round_numeral: "Math_round (numeral n) = numeral n"
  using Math_round_of_int [of "numeral n"] by simp

lemma Math_round_numeral_quotient:
  "Math_round (numeral a / numeral b) = (2 * numeral a + numeral b) div (2 * numeral b)"
  using Math_round_quotient [of "numeral b" "numeral a"] by simp

subsection \<open>Tables with unique keys\<close>

lemma foldl_plus_sum_list:
  "foldl (\<lambda>s r. s + f r) a xs = (a::int) + sum_list (map f xs)"
  by (induction xs arbitrary: a) simp_all

lemma sum_filter_key:
  "distinct (map key rows) \<Longrightarrow>
   sum_list (map f (filter (\<lambda>r. key r = k) rows)) =
     (case find (\<lambda>r. key r = k) rows of None \<Rightarrow> (0::int) | Some r \<Rightarrow> f r)"
proof (induction rows)
  case Nil
  then show ?case by simp
next
  case (Cons r rs)
  show ?case
  proof (cases "key r = k")
    case True
    with Cons.prems have "k \<notin> key ` set rs" by auto
    then have "filter (\<lambda>r. key r = k) rs = []" by (auto simp: filter_empty_conv)
    with True show ?thesis by simp
  next
    case False
    with Cons show ?thesis by simp
  qed
qed

lemma sum_filter_disj:
  "(\<And>x. x \<in> set xs \<Longrightarrow> \<not> (P x \<and> Q x)) \<Longrightarrow>
   sum_list (map f (filter (\<lambda>x. P x \<or> Q x) xs)) =
     sum_list (map f (filter P xs)) + (sum_list (map f (filter Q xs)) :: int)"
  by (induction xs) auto

lemma sum_rows_by_lesson:
  assumes "distinct (map (\<lambda>r. (ulp_userId r, ulp_lessonId r)) rows)" "distinct ids"
  shows "sum_list (map ulp_progressPercent
            (filter (\<lambda>r. ulp_userId r = u \<and> ulp_lessonId r \<in> set ids) rows)) =
         sum_list (map (\<lambda>i. case find (\<lambda>r. ulp_userId r = u \<and> ulp_lessonId r = i) rows of
                               None \<Rightarrow> 0 | Some r \<Rightarrow> ulp_progressPercent r) ids)"
  using assms(2)
proof (induction ids)
  case Nil
  then show ?case by simp
next
  case (Cons i ids)
  have split: "(\<lambda>r. ulp_userId r = u \<and> ulp_lessonId r \<in> set (i # ids)) =
        (\<lambda>r. (ulp_userId r, ulp_lessonId r) = (u, i) \<or> (ulp_userId r = u \<and> ulp_lessonId r \<in> set ids))"
    by auto
  have one: "sum_list (map ulp_progressPercent (filter (\<lambda>r. (ulp_userId r, ulp_lessonId r) = (u, i)) rows)) =
     (case find (\<lambda>r. (ulp_userId r, ulp_lessonId r) = (u, i)) rows of None \<Rightarrow> 0 | Some r \<Rightarrow> ulp_progressPercent r)"
    using assms(1) by (rule sum_filter_key)
  have "sum_list (map ulp_progressPercent
            (filter (\<lambda>r. ulp_userId r = u \<and> ulp_lessonId r \<in> set (i # ids)) rows)) =
     sum_list (map ulp_progressPercent (filter (\<lambda>r. (ulp_userId r, ulp_lessonId r) = (u, i)) rows)) +
     sum_list (map ulp_progressPercent (filter (\<lambda>r. ulp_userId r = u \<and> ulp_lessonId r \<in> set ids) rows))"
    unfolding split using Cons.prems by (intro sum_filter_disj) auto
  with one Cons show ?case by simp
qed

lemma find_append_rows:
  "find P (xs @ ys) = (case find P xs of None \<Rightarrow> find P ys | Some x \<Rightarrow> Some x)"
  by (induction xs) auto

lemma find_map_upd:
  assumes "\<And>r. P r \<Longrightarrow> P (upd r)"
  shows "find P (map (\<lambda>x. if P x then upd x else x) rows) = map_option upd (find P rows)"
  using assms by (induction rows) auto

lemma upsert_find_written:
  assumes "P new" "\<And>r. P r \<Longrightarrow> P (upd r)"
  shows "find P (fst (upsert P new upd rows)) = Some (snd (upsert P new upd rows))"
proof (cases "find P rows")
  case None
  with assms(1) show ?thesis by (simp add: upsert_def find_append_rows)
next
  case (Some r)
  with find_map_upd [of P upd rows, OF assms(2)] show ?thesis by (simp add: upsert_def)
qed

lemma upsert_find_other:
  assumes "\<not> Q new" "\<And>r. P r \<Longrightarrow> \<not> Q r \<and> \<not> Q (upd r)"
  shows "find Q (fst (upsert P new upd rows)) = find Q rows"
proof (cases "find P rows")
  case None
  with assms(1) show ?thesis by (simp add: upsert_def find_append_rows split: option.splits)
next
  case (Some r)
  have "find Q (map (\<lambda>x. if P x then upd x else x) rows) = find Q rows"
    using assms(2) by (induction rows) auto
  with Some show ?thesis by (simp add: upsert_def)
qed

lemma upsert_distinct_keys:
  assumes "distinct (map key rows)" "\<And>r. key (upd r) = key r" "\<And>r. P r \<longleftrightarrow> key r = key new"
  shows "distinct (map key (fst (upsert P new upd rows)))"
proof (cases "find P rows")
  case None
  then have "key new \<notin> key ` set rows" using assms(3) by (auto simp: find_None_iff)
  with None assms(1) show ?thesis by (simp add: upsert_def)
next
  case (Some r)
  have eq: "map key (map (\<lambda>x. if P x then upd x else x) rows) = map key rows"
    using assms(2) by (induction rows) auto
  have "distinct (map key (map (\<lambda>x. if P x then upd x else x) rows))"
    by (simp only: eq assms(1))
  with Some show ?thesis by (simp add: upsert_def)
qed

lemma updateCourseProgress_result:
  assumes co: "findUnique (\<lambda>c. course_id c = courseId) (courses db) = Some co"
      and act: "activeLessons db courseId \<noteq> []"
      and uk: "unique_keys db"
  shows "\<exists>rows. updateCourseProgress db now userId courseId = (db\<lparr>userCourseProgress := rows\<rparr>, Inr ()) \<and>
           (\<exists>r. findUnique (\<lambda>r. ucp_userId r = userId \<and> ucp_courseId r = courseId) rows = Some r \<and>
                ucp_progressPercent r = courseAverage db userId courseId)"
proof -
  let ?ls = "activeLessons db courseId"
  let ?avg = "courseAverage db userId courseId"
  let ?P = "\<lambda>r. ucp_userId r = userId \<and> ucp_courseId r = courseId"
  let ?new = "\<lparr>ucp_userId = userId, ucp_courseId = courseId, ucp_progressPercent = ?avg,
               ucp_completedAt = (if ?avg = 100 then Some now else None)\<rparr>"
  let ?upd = "\<lambda>r. r\<lparr>ucp_progressPercent := ?avg,
                       ucp_completedAt := (if ?avg = 100 then Some now else ucp_completedAt r)\<rparr>"
  have dl: "distinct (map lesson_id ?ls)"
    using uk by (simp add: unique_keys_def activeLessons_def findMany_def distinct_map_filter)
  have total: "foldl (\<lambda>sum lp. sum + ulp_progressPercent lp) 0
                 (findMany (\<lambda>lp. ulp_userId lp = userId \<and> ulp_lessonId lp \<in> set (map lesson_id ?ls))
                    (userLessonProgress db)) =
               sum_list (map (\<lambda>l. lessonPercent db userId (lesson_id l)) ?ls)"
    using sum_rows_by_lesson [of "userLessonProgress db" "map lesson_id ?ls" userId] uk dl
    by (simp add: foldl_plus_sum_list findMany_def unique_keys_def lessonPercent_def lessonProgressRow_def findUnique_def
          comp_def)
  have run: "updateCourseProgress db now userId courseId =
          (db\<lparr>userCourseProgress := fst (upsert ?P ?new ?upd (userCourseProgress db))\<rparr>, Inr ())"
    using co act total
    by (simp add: updateCourseProgress_def courseAverage_def Let_def split_beta
          activeLessons_def [symmetric])
  have "find ?P (fst (upsert ?P ?new ?upd (userCourseProgress db))) =
          Some (snd (upsert ?P ?new ?upd (userCourseProgress db)))"
    by (rule upsert_find_written) simp_all
  moreover have "ucp_progressPercent (snd (upsert ?P ?new ?upd (userCourseProgress db))) = ?avg"
    by (simp add: upsert_def split: option.splits)
  ultimately show ?thesis using run by (auto simp: findUnique_def)
qed

lemma updateCourseProgress_frame:
  "\<exists>rows. fst (updateCourseProgress db now userId courseId) = db\<lparr>userCourseProgress := rows\<rparr>"
proof -
  have "fst (updateCourseProgress db now userId courseId) =
        db\<lparr>userCourseProgress := userCourseProgress (fst (updateCourseProgress db now userId courseId))\<rparr>"
    by (simp add: updateCourseProgress_def Let_def split_beta split: option.splits)
  then show ?thesis ..
qed

lemma updateLessonProgress_frame:
  assumes "0 \<le> p" "p \<le> 100"
      and "findUnique (\<lambda>l. lesson_id l = lessonId) (lessons db) = Some lesson"
  shows "\<exists>rows. fst (updateLessonProgress db now userId lessonId p) =
           db\<lparr>userLessonProgress :=
                 fst (upsert (\<lambda>r. ulp_userId r = userId \<and> ulp_lessonId r = lessonId)
                   \<lparr>ulp_userId = userId, ulp_lessonId = lessonId, ulp_progressPercent = p,
                    ulp_completedAt = (if p = 100 then Some now else None)\<rparr>
                   (\<lambda>r. r\<lparr>ulp_progressPercent := p,
                           ulp_completedAt := (if p = 100 then Some now else ulp_completedAt r)\<rparr>)
                   (userLessonProgress db)),
               userCourseProgress := rows\<rparr>"
proof -
  let ?db1 = "db\<lparr>userLessonProgress :=
                 fst (upsert (\<lambda>r. ulp_userId r = userId \<and> ulp_lessonId r = lessonId)
                   \<lparr>ulp_userId = userId, ulp_lessonId = lessonId, ulp_progressPercent = p,
                    ulp_completedAt = (if p = 100 then Some now else None)\<rparr>
                   (\<lambda>r. r\<lparr>ulp_progressPercent := p,
                           ulp_completedAt := (if p = 100 then Some now else ulp_completedAt r)\<rparr>)
                   (userLessonProgress db))\<rparr>"
  obtain rows where "fst (updateCourseProgress ?db1 now userId (lesson_courseId lesson)) =
      ?db1\<lparr>userCourseProgress := rows\<rparr>"
    using updateCourseProgress_frame by blast
  moreover have "fst (updateLessonProgress db now userId lessonId p) =
      fst (updateCourseProgress ?db1 now userId (lesson_courseId lesson))"
    using assms by (simp add: updateLessonProgress_def Let_def split_beta split: prod.splits sum.splits)
  ultimately show ?thesis by auto
qed

lemma lessonPercent_after_update:
  assumes "0 \<le> p" "p \<le> 100"
      and "findUnique (\<lambda>l. lesson_id l = lessonId) (lessons db) = Some lesson"
  shows "lessonPercent (fst (updateLessonProgress db now userId lessonId p)) userId l' =
           (if l' = lessonId then p else lessonPercent db userId l')"
proof -
  let ?P = "\<lambda>r. ulp_userId r = userId \<and> ulp_lessonId r = lessonId"
  let ?new = "\<lparr>ulp_userId = userId, ulp_lessonId = lessonId, ulp_progressPercent = p,
               ulp_completedAt = (if p = 100 then Some now else None)\<rparr>"
  let ?upd = "\<lambda>r. r\<lparr>ulp_progressPercent := p,
                       ulp_completedAt := (if p = 100 then Some now else ulp_completedAt r)\<rparr>"
  let ?t = "upsert ?P ?new ?upd (userLessonProgress db)"
  obtain rows where fr: "fst (updateLessonProgress db now userId lessonId p) =
      db\<lparr>userLessonProgress := fst ?t, userCourseProgress := rows\<rparr>"
    using updateLessonProgress_frame [OF assms] by blast
  show ?thesis
  proof (cases "l' = lessonId")
    case True
    have "find ?P (fst ?t) = Some (snd ?t)" by (rule upsert_find_written) simp_all
    moreover have "ulp_progressPercent (snd ?t) = p" by (simp add: upsert_def split: option.splits)
    ultimately show ?thesis using True fr by (simp add: lessonPercent_def lessonProgressRow_def findUnique_def)
  next
    case False
    have "find (\<lambda>r. ulp_userId r = userId \<and> ulp_lessonId r = l') (fst ?t) =
          find (\<lambda>r. ulp_userId r = userId \<and> ulp_lessonId r = l') (userLessonProgress db)"
      using False by (intro upsert_find_other) auto
    then show ?thesis using False fr by (simp add: lessonPercent_def lessonProgressRow_def findUnique_def)
  qed
qed

lemma unique_keys_after_update:
  assumes "0 \<le> p" "p \<le> 100"
      and "findUnique (\<lambda>l. lesson_id l = lessonId) (lessons db) = Some lesson"
      and "unique_keys db"
  shows "unique_keys (fst (updateLessonProgress db now userId lessonId p))"
proof -
  let ?P = "\<lambda>r. ulp_userId r = userId \<and> ulp_lessonId r = lessonId"
  let ?new = "\<lparr>ulp_userId = userId, ulp_lessonId = lessonId, ulp_progressPercent = p,
               ulp_completedAt = (if p = 100 then Some now else None)\<rparr>"
  let ?upd = "\<lambda>r. r\<lparr>ulp_progressPercent := p,
                       ulp_completedAt := (if p = 100 then Some now else ulp_completedAt r)\<rparr>"
  let ?t = "upsert ?P ?new ?upd (userLessonProgress db)"
  obtain rows where fr: "fst (updateLessonProgress db now userId lessonId p) =
      db\<lparr>userLessonProgress := fst ?t, userCourseProgress := rows\<rparr>"
    using updateLessonProgress_frame [OF assms(1-3)] by blast
  have "distinct (map (\<lambda>r. (ulp_userId r, ulp_lessonId r)) (fst ?t))"
    using assms(4) by (intro upsert_distinct_keys) (auto simp: unique_keys_def)
  with assms(4) fr show ?thesis by (simp add: unique_keys_def)
qed

lemma courseAverage_cong:
  assumes "lessons db' = lessons db" "userLessonProgress db' = userLessonProgress db"
  shows "courseAverage db' userId courseId = courseAverage db userId courseId"
  using assms by (simp add: courseAverage_def activeLessons_def lessonPercent_def lessonProgressRow_def)

lemma updateLessonProgress_average:
  assumes uk: "unique_keys db"
      and range: "0 \<le> p" "p \<le> 100"
      and lesson: "findUnique (\<lambda>l. lesson_id l = lessonId) (lessons db) = Some lesson"
      and co: "findUnique (\<lambda>c. course_id c = lesson_courseId lesson) (courses db) = Some co"
      and act: "activeLessons db (lesson_courseId lesson) \<noteq> []"
  shows "\<exists>db' lp r.
           updateLessonProgress db now userId lessonId p = (db', Inr lp) \<and>
           findUnique (\<lambda>r. ucp_userId r = userId \<and> ucp_courseId r = lesson_courseId lesson)
             (userCourseProgress db') = Some r \<and>
           ucp_progressPercent r = courseAverage db' userId (lesson_courseId lesson)"
proof -
  let ?P = "\<lambda>r. ulp_userId r = userId \<and> ulp_lessonId r = lessonId"
  let ?new = "\<lparr>ulp_userId = userId, ulp_lessonId = lessonId, ulp_progressPercent = p,
               ulp_completedAt = (if p = 100 then Some now else None)\<rparr>"
  let ?upd = "\<lambda>r. r\<lparr>ulp_progressPercent := p,
                       ulp_completedAt := (if p = 100 then Some now else ulp_completedAt r)\<rparr>"
  let ?t = "upsert ?P ?new ?upd (userLessonProgress db)"
  let ?db1 = "db\<lparr>userLessonProgress := fst ?t\<rparr>"
  let ?c = "lesson_courseId lesson"
  have uk1: "unique_keys ?db1"
  proof -
    have "distinct (map (\<lambda>r. (ulp_userId r, ulp_lessonId r)) (fst ?t))"
      using uk by (intro upsert_distinct_keys) (auto simp: unique_keys_def)
    with uk show ?thesis by (simp add: unique_keys_def)
  qed
  have co1: "findUnique (\<lambda>c. course_id c = ?c) (courses ?db1) = Some co" using co by simp
  have act1: "activeLessons ?db1 ?c \<noteq> []" using act by (simp add: activeLessons_def)
  obtain rows r where
    run: "updateCourseProgress ?db1 now userId ?c = (?db1\<lparr>userCourseProgress := rows\<rparr>, Inr ())"
    and r: "findUnique (\<lambda>r. ucp_userId r = userId \<and> ucp_courseId r = ?c) rows = Some r"
           "ucp_progressPercent r = courseAverage ?db1 userId ?c"
    using updateCourseProgress_result [OF co1 act1 uk1, of now userId] by blast
  have "updateLessonProgress db now userId lessonId p = (?db1\<lparr>userCourseProgress := rows\<rparr>, Inr (snd ?t))"
    using range lesson run by (simp add: updateLessonProgress_def Let_def split_beta)
  moreover have "courseAverage (?db1\<lparr>userCourseProgress := rows\<rparr>) userId ?c = courseAverage ?db1 userId ?c"
    by (rule courseAverage_cong) simp_all
  ultimately show ?thesis using r by auto
qed

lemma findUnique_lesson_id:
  "findUnique (\<lambda>l. lesson_id l = k) ls = Some lesson \<Longrightarrow> lesson_id lesson = k \<and> lesson \<in> set ls"
  by (auto simp: findUnique_def find_Some_iff)

lemma findUnique_lesson_ex:
  "k \<in> lesson_id ` set ls \<Longrightarrow> \<exists>lesson. findUnique (\<lambda>l. lesson_id l = k) ls = Some lesson"
  by (cases "find (\<lambda>l. lesson_id l = k) ls") (auto simp: findUnique_def find_None_iff)

lemma completeLessons_snoc:
  "completeLessons db userId (ks @ [(now, k)]) =
     fst (updateLessonProgress (completeLessons db userId ks) now userId k 100)"
  by (simp add: completeLessons_def)

lemma completeLessons_invariant:
  assumes "unique_keys db" "snd ` set ks \<subseteq> lesson_id ` set (lessons db)"
  shows "lessons (completeLessons db userId ks) = lessons db \<and>
         courses (completeLessons db userId ks) = courses db \<and>
         unique_keys (completeLessons db userId ks) \<and>
         (\<forall>l'. lessonPercent (completeLessons db userId ks) userId l' =
                 (if l' \<in> snd ` set ks then 100 else lessonPercent db userId l'))"
  using assms(2)
proof (induction ks rule: rev_induct)
  case Nil
  then show ?case using assms(1) by (simp add: completeLessons_def)
next
  case (snoc x ks)
  obtain now k where x: "x = (now, k)" by (cases x)
  let ?d = "completeLessons db userId ks"
  from snoc have ih: "lessons ?d = lessons db" "courses ?d = courses db" "unique_keys ?d"
      "\<And>l'. lessonPercent ?d userId l' = (if l' \<in> snd ` set ks then 100 else lessonPercent db userId l')"
    by auto
  from snoc.prems x have "k \<in> lesson_id ` set (lessons ?d)" using ih(1) by auto
  then obtain lesson where lesson: "findUnique (\<lambda>l. lesson_id l = k) (lessons ?d) = Some lesson"
    using findUnique_lesson_ex by blast
  obtain rows where fr: "fst (updateLessonProgress ?d now userId k 100) =
      ?d\<lparr>userLessonProgress :=
            fst (upsert (\<lambda>r. ulp_userId r = userId \<and> ulp_lessonId r = k)
                   \<lparr>ulp_userId = userId, ulp_lessonId = k, ulp_progressPercent = 100,
                    ulp_completedAt = (if (100::int) = 100 then Some now else None)\<rparr>
                   (\<lambda>r. r\<lparr>ulp_progressPercent := 100,
                           ulp_completedAt := (if (100::int) = 100 then Some now else ulp_completedAt r)\<rparr>)
                   (userLessonProgress ?d)),
          userCourseProgress := rows\<rparr>"
    using updateLessonProgress_frame [OF _ _ lesson, of 100 now userId] by auto
  have a: "lessons (completeLessons db userId (ks @ [x])) = lessons db"
          "courses (completeLessons db userId (ks @ [x])) = courses db"
    unfolding x completeLessons_snoc fr using ih(1,2) by simp_all
  have b: "unique_keys (completeLessons db userId (ks @ [x]))"
    unfolding x completeLessons_snoc
    using unique_keys_after_update [OF _ _ lesson ih(3), of 100 now userId] by simp
  have c: "lessonPercent (completeLessons db userId (ks @ [x])) userId l' =
             (if l' \<in> snd ` set (ks @ [x]) then 100 else lessonPercent db userId l')" for l'
    unfolding x completeLessons_snoc
    using lessonPercent_after_update [OF _ _ lesson, of 100 now userId l'] ih(4) [of l']
    by auto
  from a b c show ?case by blast
qed

lemma sum_list_if_const:
  "sum_list (map (\<lambda>x. if P x then c else 0) xs) = (c::int) * int (length (filter P xs))"
  by (induction xs) (simp_all add: algebra_simps)

lemma length_filter_mem:
  assumes "distinct ys" "distinct ids" "set ids \<subseteq> set ys"
  shows "length (filter (\<lambda>y. y \<in> set ids) ys) = length ids"
proof -
  have "distinct (filter (\<lambda>y. y \<in> set ids) ys)" using assms(1) by simp
  then have "length (filter (\<lambda>y. y \<in> set ids) ys) = card (set (filter (\<lambda>y. y \<in> set ids) ys))"
    by (rule distinct_card [symmetric])
  also have "set (filter (\<lambda>y. y \<in> set ids) ys) = set ids" using assms(3) by auto
  also have "card (set ids) = length ids" using assms(2) by (simp add: distinct_card)
  finally show ?thesis .
qed

lemma completeLessons_average:
  assumes uk: "unique_keys db"
      and co: "findUnique (\<lambda>c. course_id c = courseId) (courses db) = Some co"
      and ne: "ks \<noteq> []"
      and dk: "distinct (map snd ks)"
      and sub: "snd ` set ks \<subseteq> lesson_id ` set (activeLessons db courseId)"
      and rest: "\<forall>l \<in> set (activeLessons db courseId).
                   lesson_id l \<notin> snd ` set ks \<longrightarrow> lessonPercent db userId (lesson_id l) = 0"
  shows "\<exists>r. findUnique (\<lambda>r. ucp_userId r = userId \<and> ucp_courseId r = courseId)
               (userCourseProgress (completeLessons db userId ks)) = Some r \<and>
             ucp_progressPercent r =
               Math_round (of_int (100 * int (length ks)) /
                           of_int (int (length (activeLessons db courseId))))"
proof -
  from ne obtain ks' now k where ks: "ks = ks' @ [(now, k)]"
    by (cases ks rule: rev_cases) auto
  let ?d = "completeLessons db userId ks'"
  let ?d' = "completeLessons db userId ks"
  have sub_all: "snd ` set ks \<subseteq> lesson_id ` set (lessons db)"
    using sub by (auto simp: activeLessons_def findMany_def)
  then have sub': "snd ` set ks' \<subseteq> lesson_id ` set (lessons db)" using ks by auto
  note inv = completeLessons_invariant [OF uk sub', of userId]
  note inv' = completeLessons_invariant [OF uk sub_all, of userId]
  have act_eq: "activeLessons ?d courseId = activeLessons db courseId"
               "activeLessons ?d' courseId = activeLessons db courseId"
    using inv inv' by (simp_all add: activeLessons_def)
  from sub ks obtain la where la: "la \<in> set (activeLessons db courseId)" "lesson_id la = k"
    by auto
  then have la_in: "la \<in> set (lessons db)" "lesson_courseId la = courseId"
    by (auto simp: activeLessons_def findMany_def)
  obtain lesson where lesson: "findUnique (\<lambda>l. lesson_id l = k) (lessons ?d) = Some lesson"
    using findUnique_lesson_ex [of k "lessons ?d"] la la_in inv by auto
  have "lesson = la"
  proof -
    from findUnique_lesson_id [OF lesson] inv have "lesson \<in> set (lessons db)" "lesson_id lesson = k"
      by auto
    with la la_in uk show ?thesis
      by (auto simp: unique_keys_def distinct_map dest: inj_onD)
  qed
  with la_in have lc: "lesson_courseId lesson = courseId" by simp
  have co': "findUnique (\<lambda>c. course_id c = lesson_courseId lesson) (courses ?d) = Some co"
    using co inv lc by simp
  have act': "activeLessons ?d (lesson_courseId lesson) \<noteq> []"
    using la act_eq lc by auto
  have ukd: "unique_keys ?d" using inv by simp
  obtain db' lp r where
    run: "updateLessonProgress ?d now userId k 100 = (db', Inr lp)"
    and r: "findUnique (\<lambda>r. ucp_userId r = userId \<and> ucp_courseId r = lesson_courseId lesson)
              (userCourseProgress db') = Some r"
           "ucp_progressPercent r = courseAverage db' userId (lesson_courseId lesson)"
    using updateLessonProgress_average [OF ukd _ _ lesson co' act', of 100 now userId] by auto
  have d': "?d' = db'" unfolding ks completeLessons_snoc run by simp
  have dl: "distinct (map lesson_id (activeLessons db courseId))"
    using uk by (simp add: unique_keys_def activeLessons_def findMany_def distinct_map_filter)
  have "sum_list (map (\<lambda>l. lessonPercent ?d' userId (lesson_id l)) (activeLessons db courseId)) =
        sum_list (map (\<lambda>l. if lesson_id l \<in> snd ` set ks then 100 else 0) (activeLessons db courseId))"
    using inv' rest by (intro arg_cong [where f = sum_list] map_cong) auto
  also have "\<dots> = 100 * int (length (filter (\<lambda>l. lesson_id l \<in> snd ` set ks) (activeLessons db courseId)))"
    by (rule sum_list_if_const)
  also have "length (filter (\<lambda>l. lesson_id l \<in> snd ` set ks) (activeLessons db courseId)) =
             length (filter (\<lambda>y. y \<in> set (map snd ks)) (map lesson_id (activeLessons db courseId)))"
    by (simp add: filter_map comp_def)
  also have "\<dots> = length (map snd ks)"
    using dl dk sub by (intro length_filter_mem) auto
  finally have "courseAverage ?d' userId courseId =
      Math_round (of_int (100 * int (length ks)) / of_int (int (length (activeLessons db courseId))))"
    by (simp add: courseAverage_def act_eq)
  with r d' lc show ?thesis by auto
qed

text \<open>
  C1. In a store with unique keys, for a course that exists and has at least one active
  lesson: every \<open>updateLessonProgress\<close> with a percent in range on a lesson of the
  course succeeds and leaves a course-progress row whose percent is the rounded quotient
  of the sum of the user's percents over the course's active lessons (a lesson without a
  row counting 0) by the number of all active lessons; and after setting \<open>k\<close> distinct
  active lessons to 100, one call each, with the user at 0 on the others, the row holds
  \<open>round(100 * k / n)\<close> for the \<open>n\<close> active lessons.
\<close>

theorem updateLessonProgress_course_average:
  assumes "unique_keys db"
      and "findUnique (\<lambda>c. course_id c = courseId) (courses db) = Some co"
      and "activeLessons db courseId \<noteq> []"
  shows "(\<forall>lessonId lesson p now.
            0 \<le> p \<and> p \<le> 100 \<and>
            findUnique (\<lambda>l. lesson_id l = lessonId) (lessons db) = Some lesson \<and>
            lesson_courseId lesson = courseId \<longrightarrow>
            (\<exists>db' lp r.
               updateLessonProgress db now userId lessonId p = (db', Inr lp) \<and>
               courseProgressRow db' userId courseId = Some r \<and>
               ucp_progressPercent r = courseAverage db' userId courseId)) \<and>
         (\<forall>ks. ks \<noteq> [] \<and> distinct (map snd ks) \<and>
               snd ` set ks \<subseteq> lesson_id ` set (activeLessons db courseId) \<and>
               (\<forall>l \<in> set (activeLessons db courseId).
                  lesson_id l \<notin> snd ` set ks \<longrightarrow> lessonPercent db userId (lesson_id l) = 0) \<longrightarrow>
            (\<exists>r. courseProgressRow (completeLessons db userId ks) userId courseId = Some r \<and>
                  ucp_progressPercent r =
                    Math_round (of_int (100 * int (length ks)) /
                                of_int (int (length (activeLessons db courseId))))))"
proof (intro conjI allI impI)
  fix lessonId lesson and p :: int and now
  assume h: "0 \<le> p \<and> p \<le> 100 \<and>
      findUnique (\<lambda>l. lesson_id l = lessonId) (lessons db) = Some lesson \<and>
      lesson_courseId lesson = courseId"
  with assms(2,3) have
    "findUnique (\<lambda>c. course_id c = lesson_courseId lesson) (courses db) = Some co"
    "activeLessons db (lesson_courseId lesson) \<noteq> []"
    by simp_all
  from updateLessonProgress_average
         [OF assms(1) _ _ _ this, where p = p and lessonId = lessonId and now = now and userId = userId] h
  show "\<exists>db' lp r.
          updateLessonProgress db now userId lessonId p = (db', Inr lp) \<and>
          courseProgressRow db' userId courseId = Some r \<and>
          ucp_progressPercent r = courseAverage db' userId courseId"
    unfolding courseProgressRow_def by simp
next
  fix ks :: "(date \<times> ident) list"
  assume h: "ks \<noteq> [] \<and> distinct (map snd ks) \<and>
      snd ` set ks \<subseteq> lesson_id ` set (activeLessons db courseId) \<and>
      (\<forall>l \<in> set (activeLessons db courseId).
         lesson_id l \<notin> snd ` set ks \<longrightarrow> lessonPercent db userId (lesson_id l) = 0)"
  then show "\<exists>r. courseProgressRow (completeLessons db userId ks) userId courseId = Some r \<and>
               ucp_progressPercent r =
                 Math_round (of_int (100 * int (length ks)) /
                             of_int (int (length (activeLessons db courseId))))"
    unfolding courseProgressRow_def
    using completeLessons_average [OF assms(1,2), where ks = ks and userId = userId] by blast
qed

theorem updateLessonProgress_course_average_witness:
  "unique_keys demo_store \<and> activeLessons demo_store ''c1'' \<noteq> [] \<and>
   (\<exists>db' lp r.
      updateLessonProgress demo_store 7 ''u1'' ''l1'' 100 = (db', Inr lp) \<and>
      courseProgressRow db' ''u1'' ''c1'' = Some r \<and>
      ucp_progressPercent r = courseAverage db' ''u1'' ''c1'') \<and>
   (\<exists>r. courseProgressRow (completeLessons demo_store ''u1'' [(7, ''l1'')]) ''u1'' ''c1'' = Some r \<and>
         ucp_progressPercent r = 50)"
proof -
  have h1: "unique_keys demo_store"
    by (simp add: unique_keys_def demo_store_def)
  have h2: "findUnique (\<lambda>c. course_id c = ''c1'') (courses demo_store) =
              Some \<lparr>course_id = ''c1'', course_isActive = True\<rparr>"
    by (simp add: findUnique_def demo_store_def)
  have h3: "activeLessons demo_store ''c1'' \<noteq> []"
    by (simp add: activeLessons_def findMany_def demo_store_def)
  note t = updateLessonProgress_course_average [OF h1 h2 h3, of "''u1''"]
  have l1: "findUnique (\<lambda>l. lesson_id l = ''l1'') (lessons demo_store) =
              Some \<lparr>lesson_id = ''l1'', lesson_courseId = ''c1'', lesson_isActive = True\<rparr>"
    by (simp add: findUnique_def demo_store_def)
  have a: "\<exists>db' lp r.
      updateLessonProgress demo_store 7 ''u1'' ''l1'' 100 = (db', Inr lp) \<and>
      courseProgressRow db' ''u1'' ''c1'' = Some r \<and>
      ucp_progressPercent r = courseAverage db' ''u1'' ''c1''"
    using t [THEN conjunct1, THEN spec [where x = "''l1''"],
             THEN spec [where x = "\<lparr>lesson_id = ''l1'', lesson_courseId = ''c1'', lesson_isActive = True\<rparr>"],
             THEN spec [where x = 100], THEN spec [where x = 7]] l1
    by simp
  have acts: "activeLessons demo_store ''c1'' =
      [\<lparr>lesson_id = ''l1'', lesson_courseId = ''c1'', lesson_isActive = True\<rparr>,
       \<lparr>lesson_id = ''l2'', lesson_courseId = ''c1'', lesson_isActive = True\<rparr>]"
    by (simp add: activeLessons_def findMany_def demo_store_def)
  have l2: "lessonPercent demo_store ''u1'' ''l2'' = 0"
    by (simp add: lessonPercent_def lessonProgressRow_def findUnique_def demo_store_def)
  have b: "\<exists>r. courseProgressRow (completeLessons demo_store ''u1'' [(7, ''l1'')]) ''u1'' ''c1'' = Some r \<and>
         ucp_progressPercent r = 50"
    using t [THEN conjunct2, THEN spec [where x = "[(7, ''l1'')]"]] l2
    by (simp add: acts Math_round_numeral)
  from h1 h3 a b show ?thesis by blast
qed

section \<open>What a lesson update stores\<close>

lemma updateLessonProgress_row:
  assumes "0 \<le> p" "p \<le> 100"
      and "findUnique (\<lambda>l. lesson_id l = lessonId) (lessons db) = Some lesson"
  shows "\<exists>r. lessonProgressRow (fst (updateLessonProgress db now userId lessonId p)) userId lessonId = Some r \<and>
             ulp_progressPercent r = p \<and>
             ulp_completedAt r =
               (if p = 100 then Some now
                else (case lessonProgressRow db userId lessonId of
                        None \<Rightarrow> None | Some old \<Rightarrow> ulp_completedAt old))"
proof -
  let ?P = "\<lambda>r. ulp_userId r = userId \<and> ulp_lessonId r = lessonId"
  let ?new = "\<lparr>ulp_userId = userId, ulp_lessonId = lessonId, ulp_progressPercent = p,
               ulp_completedAt = (if p = 100 then Some now else None)\<rparr>"
  let ?upd = "\<lambda>r. r\<lparr>ulp_progressPercent := p,
                       ulp_completedAt := (if p = 100 then Some now else ulp_completedAt r)\<rparr>"
  let ?t = "upsert ?P ?new ?upd (userLessonProgress db)"
  obtain rows where fr: "fst (updateLessonProgress db now userId lessonId p) =
      db\<lparr>userLessonProgress := fst ?t, userCourseProgress := rows\<rparr>"
    using updateLessonProgress_frame [OF assms] by blast
  have "find ?P (fst ?t) = Some (snd ?t)" by (rule upsert_find_written) simp_all
  moreover have "ulp_progressPercent (snd ?t) = p"
    by (simp add: upsert_def split: option.splits)
  moreover have "ulp_completedAt (snd ?t) =
      (if p = 100 then Some now
       else (case find ?P (userLessonProgress db) of None \<Rightarrow> None | Some old \<Rightarrow> ulp_completedAt old))"
    by (simp add: upsert_def split: option.splits)
  ultimately show ?thesis using fr by (simp add: lessonProgressRow_def findUnique_def)
qed

text \<open>
  C2, as the code has it. For a percent in range and a lesson that exists,
  \<open>updateLessonProgress\<close> leaves a row of the user and lesson holding exactly that
  percent. Its \<open>completedAt\<close> is the time of the call when the percent is 100;
  otherwise it is unset in a row the call creates and it is what it was in a row the call
  updates. So after the call \<open>completedAt\<close> is set exactly when the percent is 100
  provided the lesson had no row or a row with \<open>completedAt\<close> unset; a row that was
  completed stays marked when the percent goes back below 100.
\<close>

theorem updateLessonProgress_stores_percent:
  assumes "0 \<le> p" "p \<le> 100"
      and "findUnique (\<lambda>l. lesson_id l = lessonId) (lessons db) = Some lesson"
  shows "\<exists>r. lessonProgressRow (fst (updateLessonProgress db now userId lessonId p)) userId lessonId = Some r \<and>
             ulp_progressPercent r = p \<and>
             ulp_completedAt r =
               (if p = 100 then Some now
                else (case lessonProgressRow db userId lessonId of
                        None \<Rightarrow> None | Some old \<Rightarrow> ulp_completedAt old))"
  using assms by (rule updateLessonProgress_row)

theorem updateLessonProgress_stores_percent_witness:
  "\<exists>r. lessonProgressRow (fst (updateLessonProgress demo_store 7 ''u1'' ''l1'' 40)) ''u1'' ''l1'' = Some r \<and>
       ulp_progressPercent r = 40 \<and> ulp_completedAt r = None"
proof -
  have l1: "findUnique (\<lambda>l. lesson_id l = ''l1'') (lessons demo_store) =
              Some \<lparr>lesson_id = ''l1'', lesson_courseId = ''c1'', lesson_isActive = True\<rparr>"
    by (simp add: findUnique_def demo_store_def)
  have none: "lessonProgressRow demo_store ''u1'' ''l1'' = None"
    by (simp add: lessonProgressRow_def findUnique_def demo_store_def)
  from updateLessonProgress_stores_percent [OF _ _ l1, of 40 7 "''u1''"] none
  show ?thesis by simp
qed

text \<open>
  The regress the specification includes is where its sentence fails: a call with 100 at
  time 7 and then a call with 50 at time 9 leave the row at 50 percent with
  \<open>completedAt\<close> still set.
\<close>

theorem updateLessonProgress_regress_keeps_completedAt:
  "lessonProgressRow
     (fst (updateLessonProgress (fst (updateLessonProgress demo_store 7 ''u1'' ''l1'' 100))
             9 ''u1'' ''l1'' 50))
     ''u1'' ''l1'' =
   Some \<lparr>ulp_userId = ''u1'', ulp_lessonId = ''l1'', ulp_progressPercent = 50,
         ulp_completedAt = Some 7\<rparr>"
  by (simp add: updateLessonProgress_def updateCourseProgress_def upsert_def findUnique_def
        findMany_def demo_store_def lessonProgressRow_def Let_def Math_round_numeral
        Math_round_numeral_quotient)

section \<open>Submitting an assignment\<close>


















section \<open>One-time codes\<close>

lemma generateOtpCode_demo: "generateOtpCode Suc 6 = ''123456''"
  by code_simp

lemma demo_one_code_rows:
  "otpCodes demo_one_code =
     [\<lparr>otp_id = ''o1'', otp_createdAt = 0, otp_userId = ''u1'', otp_code = ''123456'',
       otp_purpose = PASSWORD_RESET, otp_expiresAt = 600000, otp_usedAt = None,
       otp_sentTo = ''a@x.com''\<rparr>]"
  by (simp add: demo_one_code_def createOtpForUser_def generateOtpCode_demo demo_ext_def
        demo_env_def demo_store_def create_def addMinutes_def Let_def)

lemma demo_two_codes_rows:
  "otpCodes demo_two_codes =
     [\<lparr>otp_id = ''o1'', otp_createdAt = 0, otp_userId = ''u1'', otp_code = ''123456'',
       otp_purpose = PASSWORD_RESET, otp_expiresAt = 600000, otp_usedAt = None,
       otp_sentTo = ''a@x.com''\<rparr>,
      \<lparr>otp_id = ''o2'', otp_createdAt = 1000, otp_userId = ''u1'', otp_code = ''123456'',
       otp_purpose = PASSWORD_RESET, otp_expiresAt = 601000, otp_usedAt = None,
       otp_sentTo = ''a@x.com''\<rparr>]"
  by (simp add: demo_two_codes_def createOtpForUser_def generateOtpCode_demo demo_ext_def
        demo_env_def demo_one_code_rows create_def addMinutes_def Let_def)

lemma findFirst_createdAt_desc_None: "findFirst_createdAt_desc rows = None \<longleftrightarrow> rows = []"
  by (induction rows) (auto split: option.splits)

lemma findFirst_createdAt_desc_mem:
  "findFirst_createdAt_desc rows = Some otp \<Longrightarrow> otp \<in> set rows"
  by (induction rows arbitrary: otp) (auto split: option.splits if_splits)

lemma verifyOtp_cases:
  "(unused_matching db userId purpose code = [] \<and>
      verifyOtp db now userId purpose code = (db, False)) \<or>
   (\<exists>otp. findFirst_createdAt_desc (unused_matching db userId purpose code) = Some otp \<and>
          otp \<in> set (unused_matching db userId purpose code) \<and>
          verifyOtp db now userId purpose code =
            (if otp_expiresAt otp < now then (db, False)
             else (db\<lparr>otpCodes :=
                        map (\<lambda>r. if otp_id r = otp_id otp then r\<lparr>otp_usedAt := Some now\<rparr> else r)
                          (otpCodes db)\<rparr>, True)))"
proof (cases "findFirst_createdAt_desc (unused_matching db userId purpose code)")
  case None
  then show ?thesis
    by (simp add: findFirst_createdAt_desc_None verifyOtp_def unused_matching_def otp_matches_def)
next
  case (Some otp)
  then have "otp \<in> set (unused_matching db userId purpose code)"
    by (rule findFirst_createdAt_desc_mem)
  with Some show ?thesis
    by (simp add: verifyOtp_def unused_matching_def otp_matches_def isBefore_def)
qed

lemma mark_one_row:
  assumes "distinct (map key xs)" "x \<in> set xs" "Q x" "\<not> Q (f x)"
  shows "length (filter Q (map (\<lambda>r. if key r = key x then f r else r) xs)) + 1 =
         length (filter Q xs)"
  using assms(1,2)
proof (induction xs)
  case Nil
  then show ?case by simp
next
  case (Cons r rs)
  show ?case
  proof (cases "key r = key x")
    case True
    with Cons.prems have "r = x" by (auto simp: image_iff)
    from True Cons.prems have "\<forall>y \<in> set rs. key y \<noteq> key x" by (auto simp: image_iff)
    then have "map (\<lambda>r. if key r = key x then f r else r) rs = rs" by (simp add: map_idI)
    with \<open>r = x\<close> assms(3,4) show ?thesis by simp
  next
    case False
    with Cons.prems have "x \<in> set rs" "distinct (map key rs)" by auto
    with Cons.IH False show ?thesis by simp
  qed
qed

lemma mark_one_row_set:
  assumes "distinct (map key xs)" "x \<in> set xs"
  shows "map (\<lambda>r. if key r = key x then f r else r) xs = map (\<lambda>r. if r = x then f r else r) xs"
proof -
  have "key r = key x \<longleftrightarrow> r = x" if "r \<in> set xs" for r
    using assms that by (auto simp: distinct_map dest: inj_onD)
  then show ?thesis by (intro map_cong) auto
qed

lemma verifyOtp_fail_unchanged:
  "\<not> snd (verifyOtp db now userId purpose code) \<Longrightarrow> fst (verifyOtp db now userId purpose code) = db"
  using verifyOtp_cases [of db userId purpose code now] by (auto split: if_splits)

lemma verifyOtp_no_candidate:
  "unused_matching db userId purpose code = [] \<Longrightarrow> \<not> snd (verifyOtp db now userId purpose code)"
  using verifyOtp_cases [of db userId purpose code now] by auto

lemma verifyOtp_success:
  assumes ok: "snd (verifyOtp db now userId purpose code)"
      and ids: "unique_otp_ids db"
  shows "\<exists>otp \<in> set (unused_matching db userId purpose code).
           now \<le> otp_expiresAt otp \<and>
           fst (verifyOtp db now userId purpose code) =
             db\<lparr>otpCodes := map (\<lambda>r. if r = otp then r\<lparr>otp_usedAt := Some now\<rparr> else r) (otpCodes db)\<rparr> \<and>
           length (unused_codes (fst (verifyOtp db now userId purpose code))) + 1 =
             length (unused_codes db) \<and>
           length (unused_matching (fst (verifyOtp db now userId purpose code)) userId purpose code) + 1 =
             length (unused_matching db userId purpose code)"
proof -
  from ok verifyOtp_cases [of db userId purpose code now]
  obtain otp where otp: "otp \<in> set (unused_matching db userId purpose code)"
    and run: "verifyOtp db now userId purpose code =
            (if otp_expiresAt otp < now then (db, False)
             else (db\<lparr>otpCodes :=
                        map (\<lambda>r. if otp_id r = otp_id otp then r\<lparr>otp_usedAt := Some now\<rparr> else r)
                          (otpCodes db)\<rparr>, True))"
    by auto
  from ok run have fresh: "now \<le> otp_expiresAt otp" by (auto split: if_splits)
  from otp have mem: "otp \<in> set (otpCodes db)" and m: "otp_matches userId purpose code otp"
    and un: "otp_usedAt otp = None"
    by (auto simp: unused_matching_def findMany_def)
  from ids have d: "distinct (map otp_id (otpCodes db))" by (simp add: unique_otp_ids_def)
  let ?g = "\<lambda>r. if otp_id r = otp_id otp then r\<lparr>otp_usedAt := Some now\<rparr> else r"
  have st: "fst (verifyOtp db now userId purpose code) = db\<lparr>otpCodes := map ?g (otpCodes db)\<rparr>"
    using run fresh by simp
  have eq: "map ?g (otpCodes db) =
            map (\<lambda>r. if r = otp then r\<lparr>otp_usedAt := Some now\<rparr> else r) (otpCodes db)"
    using d mem by (rule mark_one_row_set)
  have c1: "length (filter (\<lambda>r. otp_usedAt r = None) (map ?g (otpCodes db))) + 1 =
            length (filter (\<lambda>r. otp_usedAt r = None) (otpCodes db))"
    using d mem un by (intro mark_one_row) simp_all
  have c2: "length (filter (\<lambda>r. otp_matches userId purpose code r \<and> otp_usedAt r = None)
                      (map ?g (otpCodes db))) + 1 =
            length (filter (\<lambda>r. otp_matches userId purpose code r \<and> otp_usedAt r = None) (otpCodes db))"
    using d mem un m by (intro mark_one_row) simp_all
  show ?thesis
  proof (intro bexI [of _ otp] conjI)
    show "otp \<in> set (unused_matching db userId purpose code)" by (rule otp)
    show "now \<le> otp_expiresAt otp" by (rule fresh)
    show "fst (verifyOtp db now userId purpose code) =
      db\<lparr>otpCodes := map (\<lambda>r. if r = otp then r\<lparr>otp_usedAt := Some now\<rparr> else r) (otpCodes db)\<rparr>"
      using st eq by simp
    show "length (unused_codes (fst (verifyOtp db now userId purpose code))) + 1 = length (unused_codes db)"
      using c1 st by (simp add: unused_codes_def findMany_def)
    show "length (unused_matching (fst (verifyOtp db now userId purpose code)) userId purpose code) + 1 =
          length (unused_matching db userId purpose code)"
      using c2 st by (simp add: unused_matching_def findMany_def)
  qed
qed



lemma issued_with_window_later:
  "issued_with_window ev db \<Longrightarrow> later_codes_expire_later db"
  by (auto simp: issued_with_window_def later_codes_expire_later_def list_all_iff addMinutes_def)

lemma createOtpForUser_issued_with_window:
  "issued_with_window ev db \<Longrightarrow>
   issued_with_window ev (fst (createOtpForUser db ev x userId purpose sentTo))"
  by (simp add: issued_with_window_def createOtpForUser_def create_def Let_def)

lemma verifyOtp_issued_with_window:
  "issued_with_window ev db \<Longrightarrow>
   issued_with_window ev (fst (verifyOtp db now userId purpose code))"
  using verifyOtp_cases [of db userId purpose code now]
  by (auto simp: issued_with_window_def list_all_iff split: if_splits)



lemma verifyOtp_second_other_record:
  assumes ids: "unique_otp_ids db"
      and otp: "otp \<in> set (otpCodes db)"
      and ok: "snd (verifyOtp
                      (db\<lparr>otpCodes := map (\<lambda>r. if r = otp then r\<lparr>otp_usedAt := Some now\<rparr> else r)
                                          (otpCodes db)\<rparr>)
                      now' userId purpose code)"
  shows "\<exists>otp' \<in> set (unused_matching db userId purpose code).
           otp' \<noteq> otp \<and>
           fst (verifyOtp
                  (db\<lparr>otpCodes := map (\<lambda>r. if r = otp then r\<lparr>otp_usedAt := Some now\<rparr> else r)
                                      (otpCodes db)\<rparr>)
                  now' userId purpose code) =
             db\<lparr>otpCodes :=
                  map (\<lambda>r. if r = otp' then r\<lparr>otp_usedAt := Some now'\<rparr> else r)
                    (map (\<lambda>r. if r = otp then r\<lparr>otp_usedAt := Some now\<rparr> else r) (otpCodes db))\<rparr>"
proof -
  let ?g = "\<lambda>r. if r = otp then r\<lparr>otp_usedAt := Some now\<rparr> else r"
  let ?db' = "db\<lparr>otpCodes := map ?g (otpCodes db)\<rparr>"
  have "map otp_id (map ?g (otpCodes db)) = map otp_id (otpCodes db)"
    by (induction "otpCodes db") auto
  then have "map otp_id (otpCodes ?db') = map otp_id (otpCodes db)" by simp
  with ids have ids': "unique_otp_ids ?db'" unfolding unique_otp_ids_def by (simp only:)
  from verifyOtp_success [OF ok ids']
  obtain otp' where m: "otp' \<in> set (unused_matching ?db' userId purpose code)"
    and st: "fst (verifyOtp ?db' now' userId purpose code) =
             ?db'\<lparr>otpCodes := map (\<lambda>r. if r = otp' then r\<lparr>otp_usedAt := Some now'\<rparr> else r)
                                  (otpCodes ?db')\<rparr>"
    by blast
  from m obtain r where r: "r \<in> set (otpCodes db)" "otp' = ?g r"
    and q: "otp_matches userId purpose code otp'" "otp_usedAt otp' = None"
    by (auto simp: unused_matching_def findMany_def)
  from r(2) q(2) have "r \<noteq> otp" by (auto split: if_splits)
  with r(2) have "otp' = r" by simp
  with r(1) q \<open>r \<noteq> otp\<close> have "otp' \<in> set (unused_matching db userId purpose code)" "otp' \<noteq> otp"
    by (simp_all add: unused_matching_def findMany_def)
  with st show ?thesis by (intro bexI [of _ otp']) simp_all
qed

text \<open>
  C3, as the code has it. With unique OTP ids: a verify that returns \<open>false\<close> leaves the
  store as it was. A verify that returns \<open>true\<close> marks exactly one row used, a row that
  was an unused row of that user, purpose and code, and leaves every other row
  unchanged, so the number of unused rows drops by one. A later verify with the same
  user, purpose and code can return \<open>true\<close> only by marking a different row, one that
  was already an unused row of that user, purpose and code before the first verify; so
  it returns \<open>false\<close> whenever the first verify consumed the only such row.
\<close>

theorem verifyOtp_single_use:
  assumes "unique_otp_ids db"
  shows "(\<not> snd (verifyOtp db now userId purpose code) \<longrightarrow>
            fst (verifyOtp db now userId purpose code) = db) \<and>
         (snd (verifyOtp db now userId purpose code) \<longrightarrow>
            length (unused_codes (fst (verifyOtp db now userId purpose code))) + 1 =
              length (unused_codes db) \<and>
            (\<exists>otp \<in> set (unused_matching db userId purpose code).
               fst (verifyOtp db now userId purpose code) =
                 db\<lparr>otpCodes :=
                      map (\<lambda>r. if r = otp then r\<lparr>otp_usedAt := Some now\<rparr> else r) (otpCodes db)\<rparr> \<and>
               (\<forall>now'. snd (verifyOtp (fst (verifyOtp db now userId purpose code))
                               now' userId purpose code) \<longrightarrow>
                  (\<exists>otp' \<in> set (unused_matching db userId purpose code).
                     otp' \<noteq> otp \<and>
                     fst (verifyOtp (fst (verifyOtp db now userId purpose code))
                            now' userId purpose code) =
                       db\<lparr>otpCodes :=
                            map (\<lambda>r. if r = otp' then r\<lparr>otp_usedAt := Some now'\<rparr> else r)
                              (otpCodes (fst (verifyOtp db now userId purpose code)))\<rparr>))) \<and>
            (length (unused_matching db userId purpose code) = 1 \<longrightarrow>
               (\<forall>now'. \<not> snd (verifyOtp (fst (verifyOtp db now userId purpose code))
                                 now' userId purpose code))))"
proof (intro conjI impI)
  assume "\<not> snd (verifyOtp db now userId purpose code)"
  then show "fst (verifyOtp db now userId purpose code) = db" by (rule verifyOtp_fail_unchanged)
next
  assume ok: "snd (verifyOtp db now userId purpose code)"
  from verifyOtp_success [OF ok assms]
  obtain otp where otp: "otp \<in> set (unused_matching db userId purpose code)"
    and st: "fst (verifyOtp db now userId purpose code) =
             db\<lparr>otpCodes := map (\<lambda>r. if r = otp then r\<lparr>otp_usedAt := Some now\<rparr> else r) (otpCodes db)\<rparr>"
    and n1: "length (unused_codes (fst (verifyOtp db now userId purpose code))) + 1 =
             length (unused_codes db)"
    and n2: "length (unused_matching (fst (verifyOtp db now userId purpose code)) userId purpose code) + 1 =
             length (unused_matching db userId purpose code)"
    by blast
  from otp have mem: "otp \<in> set (otpCodes db)" by (simp add: unused_matching_def findMany_def)
  show "length (unused_codes (fst (verifyOtp db now userId purpose code))) + 1 =
          length (unused_codes db)"
    by (rule n1)
  have second: "\<exists>otp' \<in> set (unused_matching db userId purpose code).
         otp' \<noteq> otp \<and>
         fst (verifyOtp (fst (verifyOtp db now userId purpose code)) now' userId purpose code) =
           db\<lparr>otpCodes :=
                map (\<lambda>r. if r = otp' then r\<lparr>otp_usedAt := Some now'\<rparr> else r)
                  (otpCodes (fst (verifyOtp db now userId purpose code)))\<rparr>"
    if "snd (verifyOtp (fst (verifyOtp db now userId purpose code)) now' userId purpose code)"
    for now'
    using verifyOtp_second_other_record [OF assms mem, of now now' userId purpose code] that
    unfolding st by simp
  show "\<exists>otp \<in> set (unused_matching db userId purpose code).
          fst (verifyOtp db now userId purpose code) =
            db\<lparr>otpCodes :=
                 map (\<lambda>r. if r = otp then r\<lparr>otp_usedAt := Some now\<rparr> else r) (otpCodes db)\<rparr> \<and>
          (\<forall>now'. snd (verifyOtp (fst (verifyOtp db now userId purpose code))
                          now' userId purpose code) \<longrightarrow>
             (\<exists>otp' \<in> set (unused_matching db userId purpose code).
                otp' \<noteq> otp \<and>
                fst (verifyOtp (fst (verifyOtp db now userId purpose code))
                       now' userId purpose code) =
                  db\<lparr>otpCodes :=
                       map (\<lambda>r. if r = otp' then r\<lparr>otp_usedAt := Some now'\<rparr> else r)
                         (otpCodes (fst (verifyOtp db now userId purpose code)))\<rparr>))"
  proof (rule bexI [OF _ otp], intro conjI allI impI)
    show "fst (verifyOtp db now userId purpose code) =
            db\<lparr>otpCodes :=
                 map (\<lambda>r. if r = otp then r\<lparr>otp_usedAt := Some now\<rparr> else r) (otpCodes db)\<rparr>"
      by (rule st)
  next
    fix now'
    assume "snd (verifyOtp (fst (verifyOtp db now userId purpose code)) now' userId purpose code)"
    then show "\<exists>otp' \<in> set (unused_matching db userId purpose code).
                otp' \<noteq> otp \<and>
                fst (verifyOtp (fst (verifyOtp db now userId purpose code))
                       now' userId purpose code) =
                  db\<lparr>otpCodes :=
                       map (\<lambda>r. if r = otp' then r\<lparr>otp_usedAt := Some now'\<rparr> else r)
                         (otpCodes (fst (verifyOtp db now userId purpose code)))\<rparr>"
      by (rule second)
  qed
  show "\<forall>now'. \<not> snd (verifyOtp (fst (verifyOtp db now userId purpose code))
                       now' userId purpose code)"
    if "length (unused_matching db userId purpose code) = 1"
  proof
    fix now'
    from that n2
    have "unused_matching (fst (verifyOtp db now userId purpose code)) userId purpose code = []"
      by auto
    then show "\<not> snd (verifyOtp (fst (verifyOtp db now userId purpose code)) now' userId purpose code)"
      by (rule verifyOtp_no_candidate)
  qed
qed

theorem verifyOtp_single_use_witness:
  "unique_otp_ids demo_one_code \<and>
   snd (verifyOtp demo_one_code 2000 ''u1'' PASSWORD_RESET ''123456'') \<and>
   length (unused_codes (fst (verifyOtp demo_one_code 2000 ''u1'' PASSWORD_RESET ''123456''))) + 1 =
     length (unused_codes demo_one_code) \<and>
   \<not> snd (verifyOtp (fst (verifyOtp demo_one_code 2000 ''u1'' PASSWORD_RESET ''123456''))
            3000 ''u1'' PASSWORD_RESET ''123456'') \<and>
   fst (verifyOtp demo_one_code 2000 ''u1'' PASSWORD_RESET ''000000'') = demo_one_code \<and>
   (\<exists>otp \<in> set (unused_matching demo_two_codes ''u1'' PASSWORD_RESET ''123456'').
      \<exists>otp' \<in> set (unused_matching demo_two_codes ''u1'' PASSWORD_RESET ''123456'').
        otp' \<noteq> otp \<and>
        otpCodes (fst (verifyOtp (fst (verifyOtp demo_two_codes 2000 ''u1'' PASSWORD_RESET ''123456''))
                         3000 ''u1'' PASSWORD_RESET ''123456'')) =
          map (\<lambda>r. if r = otp' then r\<lparr>otp_usedAt := Some 3000\<rparr> else r)
            (map (\<lambda>r. if r = otp then r\<lparr>otp_usedAt := Some 2000\<rparr> else r)
               (otpCodes demo_two_codes)))"
proof -
  have ids2: "unique_otp_ids demo_two_codes"
    by (simp add: unique_otp_ids_def demo_two_codes_rows)
  have ok2: "snd (verifyOtp demo_two_codes 2000 ''u1'' PASSWORD_RESET ''123456'')"
    by (simp add: verifyOtp_def demo_two_codes_rows findMany_def isBefore_def)
  have again: "snd (verifyOtp (fst (verifyOtp demo_two_codes 2000 ''u1'' PASSWORD_RESET ''123456''))
                      3000 ''u1'' PASSWORD_RESET ''123456'')"
    by (simp add: verifyOtp_def demo_two_codes_rows findMany_def isBefore_def)
  from verifyOtp_single_use [OF ids2, of 2000 "''u1''" PASSWORD_RESET "''123456''",
         THEN conjunct2, THEN mp, OF ok2, THEN conjunct2, THEN conjunct1]
  obtain otp where otp: "otp \<in> set (unused_matching demo_two_codes ''u1'' PASSWORD_RESET ''123456'')"
    and st: "fst (verifyOtp demo_two_codes 2000 ''u1'' PASSWORD_RESET ''123456'') =
       demo_two_codes\<lparr>otpCodes :=
          map (\<lambda>r. if r = otp then r\<lparr>otp_usedAt := Some 2000\<rparr> else r) (otpCodes demo_two_codes)\<rparr>"
    and nxt: "\<forall>now'. snd (verifyOtp (fst (verifyOtp demo_two_codes 2000 ''u1'' PASSWORD_RESET ''123456''))
                            now' ''u1'' PASSWORD_RESET ''123456'') \<longrightarrow>
       (\<exists>otp' \<in> set (unused_matching demo_two_codes ''u1'' PASSWORD_RESET ''123456'').
          otp' \<noteq> otp \<and>
          fst (verifyOtp (fst (verifyOtp demo_two_codes 2000 ''u1'' PASSWORD_RESET ''123456''))
                 now' ''u1'' PASSWORD_RESET ''123456'') =
            demo_two_codes\<lparr>otpCodes :=
               map (\<lambda>r. if r = otp' then r\<lparr>otp_usedAt := Some now'\<rparr> else r)
                 (otpCodes (fst (verifyOtp demo_two_codes 2000 ''u1'' PASSWORD_RESET ''123456'')))\<rparr>)"
    by blast
  from nxt [THEN spec, THEN mp, OF again]
  obtain otp' where otp': "otp' \<in> set (unused_matching demo_two_codes ''u1'' PASSWORD_RESET ''123456'')"
      "otp' \<noteq> otp"
    and st': "fst (verifyOtp (fst (verifyOtp demo_two_codes 2000 ''u1'' PASSWORD_RESET ''123456''))
                 3000 ''u1'' PASSWORD_RESET ''123456'') =
            demo_two_codes\<lparr>otpCodes :=
               map (\<lambda>r. if r = otp' then r\<lparr>otp_usedAt := Some 3000\<rparr> else r)
                 (otpCodes (fst (verifyOtp demo_two_codes 2000 ''u1'' PASSWORD_RESET ''123456'')))\<rparr>"
    by blast
  have two: "\<exists>otp \<in> set (unused_matching demo_two_codes ''u1'' PASSWORD_RESET ''123456'').
      \<exists>otp' \<in> set (unused_matching demo_two_codes ''u1'' PASSWORD_RESET ''123456'').
        otp' \<noteq> otp \<and>
        otpCodes (fst (verifyOtp (fst (verifyOtp demo_two_codes 2000 ''u1'' PASSWORD_RESET ''123456''))
                         3000 ''u1'' PASSWORD_RESET ''123456'')) =
          map (\<lambda>r. if r = otp' then r\<lparr>otp_usedAt := Some 3000\<rparr> else r)
            (map (\<lambda>r. if r = otp then r\<lparr>otp_usedAt := Some 2000\<rparr> else r)
               (otpCodes demo_two_codes))"
  proof (rule bexI [OF _ otp], rule bexI [OF _ otp'(1)], intro conjI)
    show "otp' \<noteq> otp" by (rule otp'(2))
    show "otpCodes (fst (verifyOtp (fst (verifyOtp demo_two_codes 2000 ''u1'' PASSWORD_RESET ''123456''))
                         3000 ''u1'' PASSWORD_RESET ''123456'')) =
          map (\<lambda>r. if r = otp' then r\<lparr>otp_usedAt := Some 3000\<rparr> else r)
            (map (\<lambda>r. if r = otp then r\<lparr>otp_usedAt := Some 2000\<rparr> else r)
               (otpCodes demo_two_codes))"
      unfolding st' unfolding st by simp
  qed
  have ids: "unique_otp_ids demo_one_code"
    by (simp add: unique_otp_ids_def demo_one_code_rows)
  have ok: "snd (verifyOtp demo_one_code 2000 ''u1'' PASSWORD_RESET ''123456'')"
    by (simp add: verifyOtp_def demo_one_code_rows findMany_def isBefore_def)
  have one: "length (unused_matching demo_one_code ''u1'' PASSWORD_RESET ''123456'') = 1"
    by (simp add: unused_matching_def otp_matches_def demo_one_code_rows findMany_def)
  have wrong: "\<not> snd (verifyOtp demo_one_code 2000 ''u1'' PASSWORD_RESET ''000000'')"
    by (simp add: verifyOtp_def demo_one_code_rows findMany_def)
  note t = verifyOtp_single_use [OF ids, of 2000 "''u1''" PASSWORD_RESET "''123456''"]
  from t [THEN conjunct2, THEN mp, OF ok]
  have "length (unused_codes (fst (verifyOtp demo_one_code 2000 ''u1'' PASSWORD_RESET ''123456''))) + 1 =
          length (unused_codes demo_one_code)"
    by (rule conjunct1)
  moreover from t [THEN conjunct2, THEN mp, OF ok, THEN conjunct2, THEN conjunct2, THEN mp, OF one]
  have "\<not> snd (verifyOtp (fst (verifyOtp demo_one_code 2000 ''u1'' PASSWORD_RESET ''123456''))
            3000 ''u1'' PASSWORD_RESET ''123456'')"
    by (rule spec)
  moreover from verifyOtp_single_use [OF ids, of 2000 "''u1''" PASSWORD_RESET "''000000''",
                  THEN conjunct1, THEN mp, OF wrong]
  have "fst (verifyOtp demo_one_code 2000 ''u1'' PASSWORD_RESET ''000000'') = demo_one_code" .
  ultimately show ?thesis using ids ok two by simp
qed

text \<open>
  The specification's sentence fails when two rows carry the same code: after two
  password-reset codes with the same digits are issued to one user, a verify succeeds and
  a second verify with the same user, purpose and code succeeds again.
\<close>

theorem verifyOtp_same_code_twice:
  "snd (verifyOtp demo_two_codes 2000 ''u1'' PASSWORD_RESET ''123456'') \<and>
   snd (verifyOtp (fst (verifyOtp demo_two_codes 2000 ''u1'' PASSWORD_RESET ''123456''))
          3000 ''u1'' PASSWORD_RESET ''123456'')"
  by (simp add: verifyOtp_def demo_two_codes_rows findMany_def isBefore_def)




section \<open>Password reset and registration\<close>

lemma createOtpForUser_rows:
  "\<exists>otp. createOtpForUser db ev x userId purpose sentTo = (db\<lparr>otpCodes := otpCodes db @ [otp]\<rparr>, otp) \<and>
         otp_userId otp = userId \<and> otp_purpose otp = purpose \<and> otp_usedAt otp = None \<and>
         otp_sentTo otp = sentTo \<and> otp_id otp = cuid_otp x \<and>
         otp_expiresAt otp = addMinutes (clock x) (OTP_EXP_MINUTES ev)"
  by (simp add: createOtpForUser_def create_def Let_def)

lemma requestPasswordReset_absent:
  assumes "findUnique (\<lambda>u. user_email u = email) (users db) = None"
  shows "requestPasswordReset db ev x email = (db, Inr ())"
  using assms by (simp add: requestPasswordReset_def)

lemma requestPasswordReset_inactive:
  assumes "findUnique (\<lambda>u. user_email u = email) (users db) = Some user" "\<not> user_isActive user"
  shows "requestPasswordReset db ev x email = (db, Inr ())"
  using assms by (simp add: requestPasswordReset_def)

lemma requestPasswordReset_active:
  assumes "findUnique (\<lambda>u. user_email u = email) (users db) = Some user" "user_isActive user"
  shows "\<exists>otp. fst (requestPasswordReset db ev x email) = db\<lparr>otpCodes := otpCodes db @ [otp]\<rparr> \<and>
           otp_userId otp = user_id user \<and> otp_purpose otp = PASSWORD_RESET \<and>
           otp_usedAt otp = None \<and> otp_sentTo otp = email"
proof -
  obtain otp where c: "createOtpForUser db ev x (user_id user) PASSWORD_RESET email =
        (db\<lparr>otpCodes := otpCodes db @ [otp]\<rparr>, otp)"
    and p: "otp_userId otp = user_id user" "otp_purpose otp = PASSWORD_RESET"
           "otp_usedAt otp = None" "otp_sentTo otp = email"
    using createOtpForUser_rows [of db ev x "user_id user" PASSWORD_RESET email] by blast
  have "fst (requestPasswordReset db ev x email) = db\<lparr>otpCodes := otpCodes db @ [otp]\<rparr>"
    using assms c by (simp add: requestPasswordReset_def split: sum.splits)
  with p show ?thesis by blast
qed

lemma registerRequestOtp_duplicate:
  assumes "findUnique (\<lambda>u. user_email u = email) (users db) = Some existing"
  shows "registerRequestOtp db ev x email password = (db, Inl UserExists)"
  using assms by (simp add: registerRequestOtp_def)

lemma registerRequestOtp_run:
  assumes "findUnique (\<lambda>u. user_email u = email) (users db) = None"
  shows "\<exists>otp. registerRequestOtp db ev x email password =
           (db\<lparr>users := users db @
                   [\<lparr>user_id = cuid_user x, user_email = email, user_phone = None,
                     user_passwordHash = bcrypt_hash x password, user_isActive = False\<rparr>],
               otpCodes := otpCodes db @ [otp]\<rparr>,
            sendOtpEmail ev x) \<and>
           otp_userId otp = cuid_user x \<and> otp_purpose otp = REGISTER \<and>
           otp_usedAt otp = None \<and> otp_sentTo otp = email"
proof -
  let ?user = "\<lparr>user_id = cuid_user x, user_email = email, user_phone = None,
                 user_passwordHash = bcrypt_hash x password, user_isActive = False\<rparr>"
  let ?db1 = "db\<lparr>users := users db @ [?user]\<rparr>"
  obtain otp where c: "createOtpForUser ?db1 ev x (cuid_user x) REGISTER email =
        (?db1\<lparr>otpCodes := otpCodes ?db1 @ [otp]\<rparr>, otp)"
    and p: "otp_userId otp = cuid_user x" "otp_purpose otp = REGISTER"
           "otp_usedAt otp = None" "otp_sentTo otp = email"
    using createOtpForUser_rows [of ?db1 ev x "cuid_user x" REGISTER email] by blast
  have "registerRequestOtp db ev x email password =
          (?db1\<lparr>otpCodes := otpCodes ?db1 @ [otp]\<rparr>, sendOtpEmail ev x)"
    using assms c by (simp add: registerRequestOtp_def create_def split: sum.splits)
  with p show ?thesis by auto
qed

lemma findUnique_append_last:
  "findUnique P rows = None \<Longrightarrow> P r \<Longrightarrow> findUnique P (rows @ [r]) = Some r"
  by (simp add: findUnique_def find_append_rows)

text \<open>
  C7. \<open>requestPasswordReset\<close> for an email that no user has, or whose user is inactive,
  returns normally and leaves the store as it was: no OTP row is created and no user is
  changed. For an active user it appends one unused \<open>PASSWORD_RESET\<close> row of that user,
  sent to the email, and changes nothing else, whether or not the mail is then accepted.
\<close>

theorem requestPasswordReset_silent_unless_active:
  "(findUnique (\<lambda>u. user_email u = email) (users db) = None \<longrightarrow>
      requestPasswordReset db ev x email = (db, Inr ())) \<and>
   (\<forall>user. findUnique (\<lambda>u. user_email u = email) (users db) = Some user \<and> \<not> user_isActive user \<longrightarrow>
      requestPasswordReset db ev x email = (db, Inr ())) \<and>
   (\<forall>user. findUnique (\<lambda>u. user_email u = email) (users db) = Some user \<and> user_isActive user \<longrightarrow>
      (\<exists>otp. fst (requestPasswordReset db ev x email) = db\<lparr>otpCodes := otpCodes db @ [otp]\<rparr> \<and>
             otp_userId otp = user_id user \<and> otp_purpose otp = PASSWORD_RESET \<and>
             otp_usedAt otp = None \<and> otp_sentTo otp = email))"
  using requestPasswordReset_absent [of email db ev x]
        requestPasswordReset_inactive [of email db _ ev x]
        requestPasswordReset_active [of email db _ ev x]
  by blast

theorem requestPasswordReset_silent_unless_active_witness:
  "requestPasswordReset demo_store demo_env demo_ext ''nobody@x.com'' = (demo_store, Inr ()) \<and>
   requestPasswordReset demo_store demo_env demo_ext ''b@x.com'' = (demo_store, Inr ()) \<and>
   (\<exists>otp. fst (requestPasswordReset demo_store demo_env demo_ext ''a@x.com'') =
            demo_store\<lparr>otpCodes := otpCodes demo_store @ [otp]\<rparr> \<and>
          otp_userId otp = ''u1'' \<and> otp_purpose otp = PASSWORD_RESET \<and>
          otp_usedAt otp = None \<and> otp_sentTo otp = ''a@x.com'')"
proof -
  have n: "findUnique (\<lambda>u. user_email u = ''nobody@x.com'') (users demo_store) = None"
    by (simp add: findUnique_def demo_store_def)
  have b: "findUnique (\<lambda>u. user_email u = ''b@x.com'') (users demo_store) =
             Some \<lparr>user_id = ''u2'', user_email = ''b@x.com'', user_phone = None,
                   user_passwordHash = ''h2'', user_isActive = False\<rparr>"
    by (simp add: findUnique_def demo_store_def)
  have a: "findUnique (\<lambda>u. user_email u = ''a@x.com'') (users demo_store) =
             Some \<lparr>user_id = ''u1'', user_email = ''a@x.com'', user_phone = None,
                   user_passwordHash = ''h1'', user_isActive = True\<rparr>"
    by (simp add: findUnique_def demo_store_def)
  from requestPasswordReset_silent_unless_active
         [of "''nobody@x.com''" demo_store demo_env demo_ext] n
  have 1: "requestPasswordReset demo_store demo_env demo_ext ''nobody@x.com'' = (demo_store, Inr ())"
    by blast
  from requestPasswordReset_silent_unless_active
         [of "''b@x.com''" demo_store demo_env demo_ext, THEN conjunct2, THEN conjunct1,
          THEN spec [where x = "\<lparr>user_id = ''u2'', user_email = ''b@x.com'', user_phone = None,
                   user_passwordHash = ''h2'', user_isActive = False\<rparr>"]] b
  have 2: "requestPasswordReset demo_store demo_env demo_ext ''b@x.com'' = (demo_store, Inr ())"
    by simp
  from requestPasswordReset_silent_unless_active
         [of "''a@x.com''" demo_store demo_env demo_ext, THEN conjunct2, THEN conjunct2,
          THEN spec [where x = "\<lparr>user_id = ''u1'', user_email = ''a@x.com'', user_phone = None,
                   user_passwordHash = ''h1'', user_isActive = True\<rparr>"]] a
  have 3: "\<exists>otp. fst (requestPasswordReset demo_store demo_env demo_ext ''a@x.com'') =
            demo_store\<lparr>otpCodes := otpCodes demo_store @ [otp]\<rparr> \<and>
          otp_userId otp = ''u1'' \<and> otp_purpose otp = PASSWORD_RESET \<and>
          otp_usedAt otp = None \<and> otp_sentTo otp = ''a@x.com''"
    by simp
  from 1 2 3 show ?thesis by blast
qed

text \<open>
  C9. When no user has the email, \<open>registerRequestOtp\<close> appends the inactive user and a
  \<open>REGISTER\<close> code of that user to the store whatever the mail service then does. If
  sending the mail throws, the call throws that error, the user stays stored, and every
  later \<open>registerRequestOtp\<close> with the same email on that store throws the
  duplicate-email error and writes nothing.
\<close>

theorem registerRequestOtp_user_survives_mail_failure:
  assumes "findUnique (\<lambda>u. user_email u = email) (users db) = None"
  shows "(\<exists>user otp.
            fst (registerRequestOtp db ev x email password) =
              db\<lparr>users := users db @ [user], otpCodes := otpCodes db @ [otp]\<rparr> \<and>
            user_email user = email \<and> \<not> user_isActive user \<and>
            otp_userId otp = user_id user \<and> otp_purpose otp = REGISTER) \<and>
         (\<forall>e. sendOtpEmail ev x = Inl e \<longrightarrow>
            snd (registerRequestOtp db ev x email password) = Inl e \<and>
            (\<forall>ev' x' password'.
               registerRequestOtp (fst (registerRequestOtp db ev x email password))
                 ev' x' email password' =
               (fst (registerRequestOtp db ev x email password), Inl UserExists)))"
proof -
  let ?user = "\<lparr>user_id = cuid_user x, user_email = email, user_phone = None,
                 user_passwordHash = bcrypt_hash x password, user_isActive = False\<rparr>"
  obtain otp where run: "registerRequestOtp db ev x email password =
           (db\<lparr>users := users db @ [?user], otpCodes := otpCodes db @ [otp]\<rparr>, sendOtpEmail ev x)"
    and p: "otp_userId otp = cuid_user x" "otp_purpose otp = REGISTER"
    using registerRequestOtp_run [OF assms, of ev x password] by blast
  let ?db' = "db\<lparr>users := users db @ [?user], otpCodes := otpCodes db @ [otp]\<rparr>"
  have "findUnique (\<lambda>u. user_email u = email) (users ?db') = Some ?user"
    using assms by (simp add: findUnique_append_last)
  then have dup: "registerRequestOtp ?db' ev' x' email password' = (?db', Inl UserExists)"
    for ev' x' password'
    by (rule registerRequestOtp_duplicate)
  have "\<exists>user otp. ?db' = db\<lparr>users := users db @ [user], otpCodes := otpCodes db @ [otp]\<rparr> \<and>
            user_email user = email \<and> \<not> user_isActive user \<and>
            otp_userId otp = user_id user \<and> otp_purpose otp = REGISTER"
    using p by (intro exI [of _ ?user] exI [of _ otp]) simp
  with dup show ?thesis unfolding run by simp
qed

theorem registerRequestOtp_user_survives_mail_failure_witness:
  "snd (registerRequestOtp demo_store demo_env (demo_ext\<lparr>sendMail_ok := False\<rparr>) ''new@x.com'' ''secret1'') =
     Inl SendMailFailed \<and>
   registerRequestOtp
     (fst (registerRequestOtp demo_store demo_env (demo_ext\<lparr>sendMail_ok := False\<rparr>) ''new@x.com'' ''secret1''))
     demo_env demo_ext ''new@x.com'' ''secret1'' =
   (fst (registerRequestOtp demo_store demo_env (demo_ext\<lparr>sendMail_ok := False\<rparr>) ''new@x.com'' ''secret1''),
    Inl UserExists)"
proof -
  have n: "findUnique (\<lambda>u. user_email u = ''new@x.com'') (users demo_store) = None"
    by (simp add: findUnique_def demo_store_def)
  have m: "sendOtpEmail demo_env (demo_ext\<lparr>sendMail_ok := False\<rparr>) = Inl SendMailFailed"
    by (simp add: sendOtpEmail_def getTransporter_def truthy_string_def truthy_number_def
          demo_env_def demo_ext_def)
  from registerRequestOtp_user_survives_mail_failure
         [OF n, of demo_env "demo_ext\<lparr>sendMail_ok := False\<rparr>" "''secret1''",
          THEN conjunct2, THEN spec [where x = SendMailFailed]] m
  show ?thesis by simp
qed

section \<open>Achievements\<close>

text \<open>
  C8. The achievements returned for a user contain \<open>first_course\<close> exactly when the
  user has at least one course-progress row, and \<open>perfect_progress\<close> exactly when the
  average progress is 100 and at least one course is started; the number of started
  courses is the number of the user's course-progress rows, and the average progress is
  the rounded mean of their percents, 0 when there is none.
\<close>

theorem getUserAchievements_first_and_perfect:
  "(''first_course'' \<in> ach_id ` set (getUserAchievements db userId) \<longleftrightarrow>
      startedCourses (getUserStats db userId) \<ge> 1) \<and>
   (''perfect_progress'' \<in> ach_id ` set (getUserAchievements db userId) \<longleftrightarrow>
      averageProgress (getUserStats db userId) = 100 \<and> startedCourses (getUserStats db userId) > 0) \<and>
   startedCourses (getUserStats db userId) =
     length (findMany (\<lambda>cp. ucp_userId cp = userId) (userCourseProgress db)) \<and>
   averageProgress (getUserStats db userId) =
     (if findMany (\<lambda>cp. ucp_userId cp = userId) (userCourseProgress db) = [] then 0
      else Math_round
             (of_int (sum_list (map ucp_progressPercent
                        (findMany (\<lambda>cp. ucp_userId cp = userId) (userCourseProgress db)))) /
              of_int (int (length (findMany (\<lambda>cp. ucp_userId cp = userId) (userCourseProgress db))))))"
proof (intro conjI)
  show "''first_course'' \<in> ach_id ` set (getUserAchievements db userId) \<longleftrightarrow>
      startedCourses (getUserStats db userId) \<ge> 1"
    by (auto simp: getUserAchievements_def Let_def split: if_splits)
  show "''perfect_progress'' \<in> ach_id ` set (getUserAchievements db userId) \<longleftrightarrow>
      averageProgress (getUserStats db userId) = 100 \<and> startedCourses (getUserStats db userId) > 0"
    by (auto simp: getUserAchievements_def Let_def split: if_splits)
  show "startedCourses (getUserStats db userId) =
     length (findMany (\<lambda>cp. ucp_userId cp = userId) (userCourseProgress db))"
    by (simp add: getUserStats_def Let_def)
  show "averageProgress (getUserStats db userId) =
     (if findMany (\<lambda>cp. ucp_userId cp = userId) (userCourseProgress db) = [] then 0
      else Math_round
             (of_int (sum_list (map ucp_progressPercent
                        (findMany (\<lambda>cp. ucp_userId cp = userId) (userCourseProgress db)))) /
              of_int (int (length (findMany (\<lambda>cp. ucp_userId cp = userId) (userCourseProgress db))))))"
    by (simp add: getUserStats_def Let_def foldl_plus_sum_list)
qed



lemma demo_done_course_rows:
  "userCourseProgress demo_done =
     [\<lparr>ucp_userId = ''u1'', ucp_courseId = ''c1'', ucp_progressPercent = 100,
       ucp_completedAt = Some 8\<rparr>]"
  by (simp add: demo_done_def updateLessonProgress_def updateCourseProgress_def upsert_def
        findUnique_def findMany_def demo_store_def Let_def Math_round_numeral
        Math_round_numeral_quotient)

theorem getUserAchievements_first_and_perfect_witness:
  "''first_course'' \<in> ach_id ` set (getUserAchievements demo_done ''u1'') \<and>
   ''perfect_progress'' \<in> ach_id ` set (getUserAchievements demo_done ''u1'') \<and>
   ''first_course'' \<notin> ach_id ` set (getUserAchievements demo_done ''u2'') \<and>
   ''perfect_progress'' \<notin> ach_id ` set (getUserAchievements demo_done ''u2'')"
proof -
  have u1: "findMany (\<lambda>cp. ucp_userId cp = ''u1'') (userCourseProgress demo_done) =
      [\<lparr>ucp_userId = ''u1'', ucp_courseId = ''c1'', ucp_progressPercent = 100,
        ucp_completedAt = Some 8\<rparr>]"
    by (simp add: findMany_def demo_done_course_rows)
  have u2: "findMany (\<lambda>cp. ucp_userId cp = ''u2'') (userCourseProgress demo_done) = []"
    by (simp add: findMany_def demo_done_course_rows)
  from getUserAchievements_first_and_perfect [of demo_done "''u1''"] u1
  have "''first_course'' \<in> ach_id ` set (getUserAchievements demo_done ''u1'')"
       "''perfect_progress'' \<in> ach_id ` set (getUserAchievements demo_done ''u1'')"
    by (simp_all add: Math_round_numeral)
  moreover from getUserAchievements_first_and_perfect [of demo_done "''u2''"] u2
  have "''first_course'' \<notin> ach_id ` set (getUserAchievements demo_done ''u2'')"
       "''perfect_progress'' \<notin> ach_id ` set (getUserAchievements demo_done ''u2'')"
    by simp_all
  ultimately show ?thesis by blast
qed

end
